theory Spec2Isabelle
  imports Complex_Main
begin

section \<open>The interaction controller of the LuminaFlow marketing page (script.js)\<close>

text \<open>
  The script wires event handlers to a static document. Each handler group (theme,
  scrolling, counters, pricing, accordion, lightbox, contact form) works on its own
  elements, so each group gets a record of exactly the elements, attributes and
  variables its functions read and write, and every function of the script becomes a
  function from that record to the updated record.

  Conventions of the embedding:
  \<^item> a JavaScript string is a \<open>string\<close>; the literals of the script are ASCII except
    the two theme glyphs and the ellipsis of the sending notice, which are given by
    their UTF-8 bytes;
  \<^item> a value that may be \<open>null\<close> or \<open>undefined\<close> (a missing element, a missing
    attribute) is an \<open>option\<close>;
  \<^item> a JavaScript number is an IEEE 754 double. The functions that compute with
    numbers take the type of the numbers and its operations as a parameter and apply
    the operations in the order the script does, so what is proved of them holds for
    the doubles with their rounding;
  \<^item> what the browser supplies (the time stamps of animation frames, the outcome of
    the network request, the random draw, the result of a selector query) is an
    argument of the function that consumes it.
\<close>

subsection \<open>JavaScript helpers\<close>

text \<open>\<open>String(b)\<close> for a boolean.\<close>

definition String_of_bool :: "bool \<Rightarrow> string" where
  "String_of_bool b = (if b then ''true'' else ''false'')"

text \<open>Truthiness of a string that may be undefined: defined and not empty.\<close>

definition truthy :: "string option \<Rightarrow> bool" where
  "truthy v = (case v of None \<Rightarrow> False | Some s \<Rightarrow> s \<noteq> [])"

text \<open>\<open>v || d\<close> for a string that may be null.\<close>

definition or_default :: "string option \<Rightarrow> string \<Rightarrow> string" where
  "or_default v d = (case v of None \<Rightarrow> d | Some s \<Rightarrow> if s \<noteq> [] then s else d)"

subsection \<open>Theme toggle (script.js, lines 75 to 93)\<close>

text \<open>
  \<open>data_theme\<close> is the \<open>data-theme\<close> attribute of the document element,
  \<open>localStorage\<close> the key-value storage, \<open>themeIcon\<close> the text of the
  \<open>.theme-icon\<close> element when the page has one and \<open>themeToggle\<close> tells
  whether the page has a \<open>.theme-toggle\<close> element.
\<close>

record theme_page =
  data_theme :: "string option"
  localStorage :: "string \<rightharpoonup> string"
  themeIcon :: "string option"
  themeToggle :: bool

text \<open>The crescent moon U+1F319 and the sun U+2600 U+FE0F, in UTF-8.\<close>

definition moon_glyph :: string where
  "moon_glyph = [CHR 0xF0, CHR 0x9F, CHR 0x8C, CHR 0x99]"

definition sun_glyph :: string where
  "sun_glyph = [CHR 0xE2, CHR 0x98, CHR 0x80, CHR 0xEF, CHR 0xB8, CHR 0x8F]"

definition applyTheme :: "string \<Rightarrow> theme_page \<Rightarrow> theme_page" where
  "applyTheme theme pg =
     pg\<lparr>data_theme := Some theme,
        localStorage := (localStorage pg)(''luminaflow-theme'' \<mapsto> theme),
        themeIcon := (case themeIcon pg of
                        None \<Rightarrow> None
                      | Some _ \<Rightarrow> Some (if theme = ''dark'' then moon_glyph else sun_glyph))\<rparr>"

text \<open>The click listener of the toggle.\<close>

definition themeToggle_click :: "theme_page \<Rightarrow> theme_page" where
  "themeToggle_click pg =
     (let currentTheme = (if data_theme pg = Some ''dark'' then ''dark'' else ''light'');
          nextTheme = (if currentTheme = ''dark'' then ''light'' else ''dark'')
      in applyTheme nextTheme pg)"

text \<open>What the script does for the theme when it is loaded.\<close>

definition theme_load :: "theme_page \<Rightarrow> theme_page" where
  "theme_load pg =
     (if themeToggle pg
      then (let initialTheme = data_theme pg
            in applyTheme (or_default initialTheme ''light'') pg)
      else pg)"

subsection \<open>Numbers\<close>

text \<open>
  The operations of the numbers that the script uses: \<open>num_of\<close> is the number that
  a numeric literal or an integer property denotes, \<open>num_floor\<close> is
  \<open>Math.floor\<close>, \<open>num_min\<close> is \<open>Math.min\<close>, \<open>num_less\<close> is \<open><\<close>, and
  the others are the arithmetic operators. For the doubles each operation rounds
  its result. \<open>exact_numbers\<close> are the reals with exact operations, the numbers
  of the examples.
\<close>

record 'n number_ops =
  num_of :: "real \<Rightarrow> 'n"
  num_add :: "'n \<Rightarrow> 'n \<Rightarrow> 'n"
  num_sub :: "'n \<Rightarrow> 'n \<Rightarrow> 'n"
  num_mul :: "'n \<Rightarrow> 'n \<Rightarrow> 'n"
  num_div :: "'n \<Rightarrow> 'n \<Rightarrow> 'n"
  num_neg :: "'n \<Rightarrow> 'n"
  num_floor :: "'n \<Rightarrow> 'n"
  num_min :: "'n \<Rightarrow> 'n \<Rightarrow> 'n"
  num_less :: "'n \<Rightarrow> 'n \<Rightarrow> bool"

definition exact_numbers :: "real number_ops" where
  "exact_numbers =
     \<lparr>num_of = (\<lambda>x. x), num_add = (+), num_sub = (-), num_mul = (*), num_div = (/),
      num_neg = uminus, num_floor = (\<lambda>x. of_int \<lfloor>x\<rfloor>), num_min = min, num_less = (<)\<rparr>"

subsection \<open>Smooth scrolling with offset (script.js, lines 52 to 73)\<close>

datatype dom_exception = SyntaxError | TypeError

text \<open>
  Of the element a selector finds, \<open>scrollToHash\<close> reads the top of its bounding
  rectangle only. \<open>querySelector\<close> is the document's selector query: it raises
  \<open>SyntaxError\<close> on a string that is no selector, and yields \<open>None\<close> when
  no element matches. \<open>header\<close> is the \<open>offsetHeight\<close> of the
  \<open>.site-header\<close> element when the page has one.
\<close>

record 'n element_rect =
  rect_top :: 'n

record 'n scroll_page =
  querySelector :: "string \<Rightarrow> dom_exception + 'n element_rect option"
  header :: "nat option"
  scrollY :: 'n
  prefersReducedMotion :: bool

text \<open>The argument of \<open>window.scrollTo\<close>.\<close>

record 'n scroll_request =
  top :: 'n
  behavior :: string

text \<open>
  The result is the exception of the query, or the scroll request issued, if any.
\<close>

definition scrollToHash ::
  "'n number_ops \<Rightarrow> 'n scroll_page \<Rightarrow> string \<Rightarrow> dom_exception + 'n scroll_request option" where
  "scrollToHash js pg hash =
     (case querySelector pg hash of
        Inl e \<Rightarrow> Inl e
      | Inr None \<Rightarrow> Inr None
      | Inr (Some target) \<Rightarrow>
          (let headerHeight = (case header pg of None \<Rightarrow> num_of js 0 | Some h \<Rightarrow> num_of js (real h));
               top = num_add js
                       (num_sub js (num_add js (rect_top target) (scrollY pg)) headerHeight)
                       (num_of js 1)
           in Inr (Some \<lparr>top = top,
                          behavior = (if prefersReducedMotion pg then ''auto'' else ''smooth'')\<rparr>)))"

text \<open>
  The click listener of the document. \<open>anchor\<close> is the \<open>href\<close> attribute of
  the closest ancestor of the event target that matches \<open>a[href^="#"]\<close>, if there
  is one. The first component of the result tells whether \<open>preventDefault\<close> was
  called.
\<close>

definition anchor_click ::
  "'n number_ops \<Rightarrow> 'n scroll_page \<Rightarrow> string option
     \<Rightarrow> bool \<times> (dom_exception + 'n scroll_request option)" where
  "anchor_click js pg anchor =
     (if truthy anchor
      then (let hash = the anchor
            in if length hash > 1 then (True, scrollToHash js pg hash) else (False, Inr None))
      else (False, Inr None))"

subsection \<open>Counter animation (script.js, lines 122 to 160)\<close>

text \<open>
  Of a \<open>.stat-value\<close> element, \<open>animateCounter\<close> reads \<open>dataset.target\<close> and
  writes the text. The browser supplies the number formatting of the locale
  (\<open>toLocaleString\<close>), the conversion of the attribute to a number (\<open>toNumber\<close>),
  the reduced-motion preference, the time of the call (\<open>performance_now\<close>) and the
  time stamps of the animation frames that follow (\<open>frames\<close>).
\<close>

record counter_element =
  counter_textContent :: string
  dataset_target :: "string option"

record 'n counter_env =
  toLocaleString :: "'n \<Rightarrow> string"
  toNumber :: "string \<Rightarrow> 'n"
  reducedMotion :: bool
  performance_now :: 'n
  frames :: "'n list"

text \<open>\<open>Number(el.dataset.target || 0)\<close>.\<close>

definition counter_target :: "'n number_ops \<Rightarrow> 'n counter_env \<Rightarrow> counter_element \<Rightarrow> 'n" where
  "counter_target js env el =
     (case dataset_target el of
        None \<Rightarrow> num_of js 0
      | Some s \<Rightarrow> if s \<noteq> [] then toNumber env s else num_of js 0)"

text \<open>
  The constant \<open>duration\<close>, the progress \<open>Math.min((currentTime - startTime) /
  duration, 1)\<close> and the eased progress of a frame.
\<close>

definition duration :: "'n number_ops \<Rightarrow> 'n" where
  "duration js = num_of js 1600"

definition progress_at :: "'n number_ops \<Rightarrow> 'n \<Rightarrow> 'n \<Rightarrow> 'n" where
  "progress_at js startTime currentTime =
     num_min js (num_div js (num_sub js currentTime startTime) (duration js)) (num_of js 1)"

definition eased_at :: "'n number_ops \<Rightarrow> 'n \<Rightarrow> 'n" where
  "eased_at js progress =
     (if num_less js progress (num_of js 0.5)
      then num_mul js (num_mul js (num_of js 2) progress) progress
      else num_add js (num_neg js (num_of js 1))
             (num_mul js (num_sub js (num_of js 4) (num_mul js (num_of js 2) progress)) progress))"

text \<open>
  One frame callback: the element when the callback returns, and whether the
  callback has requested another frame.
\<close>

definition step ::
  "'n number_ops \<Rightarrow> 'n counter_env \<Rightarrow> 'n \<Rightarrow> 'n \<Rightarrow> 'n \<Rightarrow> 'n \<Rightarrow> counter_element
     \<Rightarrow> counter_element \<times> bool" where
  "step js env target start startTime currentTime el =
     (let progress = progress_at js startTime currentTime;
          eased = eased_at js progress;
          val = num_floor js (num_add js start (num_mul js (num_sub js target start) eased));
          el1 = el\<lparr>counter_textContent := toLocaleString env val\<rparr>
      in if num_less js progress (num_of js 1) \<and> \<not> reducedMotion env
         then (el1, True)
         else (el1\<lparr>counter_textContent := toLocaleString env target\<rparr>, False))"

text \<open>
  The frame callbacks that run on a list of time stamps: the element after each of
  them, and whether a callback is still requested when the list is used up.
\<close>

fun run_frames ::
  "'n number_ops \<Rightarrow> 'n counter_env \<Rightarrow> 'n \<Rightarrow> 'n \<Rightarrow> 'n \<Rightarrow> 'n list \<Rightarrow> counter_element
     \<Rightarrow> counter_element list \<times> bool" where
  "run_frames js env target start startTime [] el = ([], True)"
| "run_frames js env target start startTime (currentTime # later) el =
     (let (el1, again) = step js env target start startTime currentTime el
      in if again
         then (let (shown, pending) = run_frames js env target start startTime later el1
               in (el1 # shown, pending))
         else ([el1], False))"

text \<open>
  \<open>animateCounter\<close> and the frames it sets off: the element after the call, under
  reduced motion, or else after each frame callback that runs, and whether the
  animation is still waiting for a frame at the end.
\<close>

definition animateCounter ::
  "'n number_ops \<Rightarrow> 'n counter_env \<Rightarrow> counter_element \<Rightarrow> counter_element list \<times> bool" where
  "animateCounter js env el =
     (let target = counter_target js env el;
          start = (if reducedMotion env then target else num_of js 0);
          startTime = performance_now env
      in if reducedMotion env
         then ([el\<lparr>counter_textContent := toLocaleString env target\<rparr>], False)
         else run_frames js env target start startTime (frames env) el)"

subsection \<open>Pricing toggle (script.js, lines 162 to 202)\<close>

text \<open>
  Modelled from the spec: the markup of the page (index.html) is not among the
  sources. As the spec describes it, the pricing section has billing buttons, pricing
  cards with a per-card amount element and a per-card call-to-action link, and
  suffix labels; these are elements of their own, none nested in another. So
  \<open>billingButtons\<close>, \<open>pricingCards\<close> and \<open>cycleSuffix\<close> are the three node
  lists of the script, a card holds what \<open>card.querySelector\<close> finds for
  \<open>.amount\<close> and for \<open>.plan-cta\<close>, and a suffix label is its text.

  A \<open>dataset\<close> is the map from property names to the values of the element's
  data attributes. The \<open>billing\<close> argument is a string or undefined (a button
  without \<open>data-billing\<close>), hence a \<open>string option\<close>.
\<close>

record toggle_option =
  btn_billing :: "string option"
  btn_classList :: "string set"
  btn_aria_pressed :: "string option"

record amount_element =
  amount_textContent :: string
  amount_dataset :: "string \<rightharpoonup> string"

record cta_element =
  cta_href :: "string option"
  cta_dataset :: "string \<rightharpoonup> string"

record pricing_card =
  amountEl :: "amount_element option"
  cta :: "cta_element option"

record pricing_page =
  billingButtons :: "toggle_option list"
  pricingCards :: "pricing_card list"
  cycleSuffix :: "string list"

text \<open>A value used as a property name or in a template literal.\<close>

definition property_key :: "string option \<Rightarrow> string" where
  "property_key b = (case b of None \<Rightarrow> ''undefined'' | Some s \<Rightarrow> s)"

text \<open>\<open>classList.toggle(c, force)\<close>.\<close>

definition classList_toggle :: "string \<Rightarrow> bool \<Rightarrow> string set \<Rightarrow> string set" where
  "classList_toggle c force cs = (if force then insert c cs else cs - {c})"

text \<open>The three loops of \<open>updatePricing\<close>, one element at a time.\<close>

definition update_button :: "string option \<Rightarrow> toggle_option \<Rightarrow> toggle_option" where
  "update_button billing btn =
     (let isActive = (btn_billing btn = billing)
      in btn\<lparr>btn_classList := classList_toggle ''is-active'' isActive (btn_classList btn),
             btn_aria_pressed := Some (String_of_bool isActive)\<rparr>)"

definition update_card :: "string option \<Rightarrow> pricing_card \<Rightarrow> pricing_card" where
  "update_card billing pc =
     (case amountEl pc of
        None \<Rightarrow> pc
      | Some amount \<Rightarrow>
          (case cta pc of
             None \<Rightarrow> pc
           | Some link \<Rightarrow>
               (let price = amount_dataset amount (property_key billing);
                    amount' = (if truthy price
                               then amount\<lparr>amount_textContent := the price\<rparr>
                               else amount);
                    linkAttr = property_key billing @ ''Link'';
                    href = cta_dataset link linkAttr;
                    link' = (if truthy href then link\<lparr>cta_href := href\<rparr> else link)
                in pc\<lparr>amountEl := Some amount', cta := Some link'\<rparr>)))"

definition update_suffix :: "string option \<Rightarrow> string \<Rightarrow> string" where
  "update_suffix billing suffix =
     (if billing = Some ''yearly'' then ''/mo billed yearly'' else ''/mo'')"

definition updatePricing :: "string option \<Rightarrow> pricing_page \<Rightarrow> pricing_page" where
  "updatePricing billing pg =
     pg\<lparr>billingButtons := map (update_button billing) (billingButtons pg),
        pricingCards := map (update_card billing) (pricingCards pg),
        cycleSuffix := map (update_suffix billing) (cycleSuffix pg)\<rparr>"

text \<open>The click listener of the billing button at position \<open>i\<close>.\<close>

definition billing_click :: "nat \<Rightarrow> pricing_page \<Rightarrow> pricing_page" where
  "billing_click i pg =
     (if i < length (billingButtons pg)
      then (let btn = billingButtons pg ! i
            in if ''is-active'' \<in> btn_classList btn then pg
               else updatePricing (btn_billing btn) pg)
      else pg)"

text \<open>What the script does for the pricing section when it is loaded.\<close>

definition pricing_load :: "pricing_page \<Rightarrow> pricing_page" where
  "pricing_load pg = (if billingButtons pg \<noteq> [] then updatePricing (Some ''monthly'') pg else pg)"

subsection \<open>Lightbox (script.js, lines 257 to 313)\<close>

text \<open>
  The page holds the four elements the script looks up (\<open>None\<close> for one the page
  does not have), the variable \<open>lastFocusedElement\<close>, \<open>document.activeElement\<close>
  and the \<open>overflow\<close> style of the body. Elements that can hold the focus are
  identified by numbers. \<open>isHTMLElement\<close> is the test
  \<open>instanceof HTMLElement\<close>; \<open>focusable\<close> tells whether the element can take
  the focus: \<open>focus()\<close> makes such an element the active element and does nothing
  on any other.
\<close>

record lightbox_element =
  lightbox_aria_hidden :: "string option"

record lightbox_image =
  image_src :: string
  image_alt :: string

record gallery_image =
  img_src :: string
  img_alt :: string
  img_dataset_lightbox :: "string option"

record lightbox_page =
  lightbox :: "lightbox_element option"
  lightboxImage :: "lightbox_image option"
  lightboxCaption :: "string option"
  lightboxClose :: "nat option"
  lastFocusedElement :: "nat option"
  activeElement :: "nat option"
  body_overflow :: string
  isHTMLElement :: "nat \<Rightarrow> bool"
  focusable :: "nat \<Rightarrow> bool"

definition focus :: "nat \<Rightarrow> lightbox_page \<Rightarrow> lightbox_page" where
  "focus e pg = (if focusable pg e then pg\<lparr>activeElement := Some e\<rparr> else pg)"

definition openLightbox :: "gallery_image \<Rightarrow> lightbox_page \<Rightarrow> lightbox_page" where
  "openLightbox img pg =
     (case (lightbox pg, lightboxImage pg, lightboxCaption pg) of
        (Some box, Some picture, Some caption) \<Rightarrow>
          (let pg1 = pg\<lparr>lastFocusedElement := activeElement pg\<rparr>;
               pg2 = pg1\<lparr>lightboxImage := Some (picture\<lparr>image_src := img_src img,
                                                      image_alt := img_alt img\<rparr>)\<rparr>;
               pg3 = pg2\<lparr>lightboxCaption := Some (or_default (img_dataset_lightbox img) [])\<rparr>;
               pg4 = pg3\<lparr>lightbox := Some (box\<lparr>lightbox_aria_hidden := Some ''false''\<rparr>)\<rparr>;
               pg5 = (case lightboxClose pg4 of None \<Rightarrow> pg4 | Some c \<Rightarrow> focus c pg4)
           in pg5\<lparr>body_overflow := ''hidden''\<rparr>)
      | _ \<Rightarrow> pg)"

definition hideLightbox :: "lightbox_page \<Rightarrow> lightbox_page" where
  "hideLightbox pg =
     (case lightbox pg of
        None \<Rightarrow> pg
      | Some box \<Rightarrow>
          (let pg1 = pg\<lparr>lightbox := Some (box\<lparr>lightbox_aria_hidden := Some ''true''\<rparr>)\<rparr>;
               pg2 = pg1\<lparr>body_overflow := []\<rparr>;
               pg3 = (case lightboxImage pg2 of
                        None \<Rightarrow> pg2
                      | Some picture \<Rightarrow>
                          pg2\<lparr>lightboxImage := Some (picture\<lparr>image_src := [], image_alt := []\<rparr>)\<rparr>)
           in case lastFocusedElement pg3 of
                None \<Rightarrow> pg3
              | Some e \<Rightarrow> if isHTMLElement pg3 e then focus e pg3 else pg3))"

subsection \<open>FAQ accordion (script.js, lines 204 to 255)\<close>

text \<open>The decimal digits of a number in a template literal.\<close>

definition digit_char :: "nat \<Rightarrow> char" where
  "digit_char d = ''0123456789'' ! d"

fun String_of_nat :: "nat \<Rightarrow> string" where
  "String_of_nat n =
     (if n < 10 then [digit_char n] else String_of_nat (n div 10) @ [digit_char (n mod 10)])"

declare String_of_nat.simps [simp del]

text \<open>
  A trigger is an element of \<open>accordionTriggers\<close>, identified by its position in
  that array. Of a trigger the script reads the \<open>id\<close> property (the empty string
  without an id attribute) and the attribute \<open>aria-controls\<close>, and it writes
  \<open>aria-expanded\<close>. \<open>elementsById\<close> is \<open>document.getElementById\<close>: of the
  element it returns, the script writes \<open>aria-hidden\<close> and the \<open>max-height\<close>
  style and reads \<open>scrollHeight\<close>. Two triggers may control the same element.
\<close>

record accordion_trigger =
  trigger_id :: string
  aria_controls :: "string option"
  aria_expanded :: "string option"

record accordion_panel =
  panel_aria_hidden :: "string option"
  panel_maxHeight :: string
  panel_scrollHeight :: nat

record accordion_page =
  accordionTriggers :: "accordion_trigger list"
  elementsById :: "string \<rightharpoonup> accordion_panel"
  openAccordionId :: "string option"

text \<open>
  \<open>setAccordionState\<close> for the trigger at position \<open>i\<close>. The script calls it
  with elements of \<open>accordionTriggers\<close> only; on any other position the function
  leaves the page as it is.
\<close>

definition setAccordionState :: "nat \<Rightarrow> bool \<Rightarrow> accordion_page \<Rightarrow> accordion_page" where
  "setAccordionState i expanded pg =
     (if i < length (accordionTriggers pg)
      then (let trigger = accordionTriggers pg ! i;
                panelId = aria_controls trigger;
                panel = (if truthy panelId then elementsById pg (the panelId) else None);
                pg1 = pg\<lparr>accordionTriggers :=
                          (accordionTriggers pg)
                            [i := trigger\<lparr>aria_expanded := Some (String_of_bool expanded)\<rparr>]\<rparr>
            in case panel of
                 None \<Rightarrow> pg1
               | Some p \<Rightarrow>
                   (let p1 = p\<lparr>panel_aria_hidden := Some (String_of_bool (\<not> expanded))\<rparr>
                    in if expanded
                       then pg1\<lparr>elementsById := (elementsById pg)
                                  (the panelId \<mapsto>
                                     p1\<lparr>panel_maxHeight :=
                                          String_of_nat (panel_scrollHeight p) @ ''px''\<rparr>),
                                openAccordionId := Some (trigger_id trigger)\<rparr>
                       else pg1\<lparr>elementsById := (elementsById pg)
                                  (the panelId \<mapsto> p1\<lparr>panel_maxHeight := ''0px''\<rparr>),
                                openAccordionId :=
                                  (if openAccordionId pg = Some (trigger_id trigger) then None
                                   else openAccordionId pg)\<rparr>))
      else pg)"

text \<open>
  The click listener of the trigger at position \<open>i\<close>; a position that is no
  trigger has no listener.
\<close>

definition accordion_click :: "nat \<Rightarrow> accordion_page \<Rightarrow> accordion_page" where
  "accordion_click i pg =
     (if i < length (accordionTriggers pg)
      then (let isExpanded = (aria_expanded (accordionTriggers pg ! i) = Some ''true'');
                pg1 = fold (\<lambda>other s. if other \<noteq> i then setAccordionState other False s else s)
                        [0..<length (accordionTriggers pg)] pg
            in setAccordionState i (\<not> isExpanded) pg1)
      else pg)"

text \<open>When it is loaded, the script collapses every trigger.\<close>

definition accordion_load :: "accordion_page \<Rightarrow> accordion_page" where
  "accordion_load pg =
     fold (\<lambda>j s. setAccordionState j False s) [0..<length (accordionTriggers pg)] pg"

text \<open>
  The calls of \<open>setAccordionState\<close> that the click listener makes, in their
  order: one on every other trigger, in the order of the array, and the last one
  on the trigger itself.
\<close>

definition click_calls :: "nat \<Rightarrow> accordion_page \<Rightarrow> (nat \<times> bool) list" where
  "click_calls i pg =
     (if i < length (accordionTriggers pg)
      then (let isExpanded = (aria_expanded (accordionTriggers pg ! i) = Some ''true'')
            in map (\<lambda>other. (other, False))
                 (filter (\<lambda>other. other \<noteq> i) [0..<length (accordionTriggers pg)])
               @ [(i, \<not> isExpanded)])
      else [])"

text \<open>
  The pages after each call of a list of calls, in order, and the page after the
  last of them.
\<close>

fun call_states :: "(nat \<times> bool) list \<Rightarrow> accordion_page \<Rightarrow> accordion_page list" where
  "call_states [] pg = []"
| "call_states ((j, b) # calls) pg =
     setAccordionState j b pg # call_states calls (setAccordionState j b pg)"

definition after_calls :: "(nat \<times> bool) list \<Rightarrow> accordion_page \<Rightarrow> accordion_page" where
  "after_calls calls pg = last (pg # call_states calls pg)"

text \<open>
  Every page that a sequence of clicks passes through: the page before each click,
  the page after each call of \<open>setAccordionState\<close> of its listener, and the page
  at the end.
\<close>

fun accordion_states :: "nat list \<Rightarrow> accordion_page \<Rightarrow> accordion_page list" where
  "accordion_states [] pg = [pg]"
| "accordion_states (i # clicks) pg =
     pg # call_states (click_calls i pg) pg @ accordion_states clicks (accordion_click i pg)"

text \<open>
  The element that the trigger at position \<open>i\<close> controls, by its id, if there is
  one; the positions of the expanded triggers; the ids of the controlled elements
  whose max-height is not "0px".
\<close>

definition controls :: "accordion_page \<Rightarrow> nat \<Rightarrow> string option" where
  "controls pg i =
     (let panelId = aria_controls (accordionTriggers pg ! i)
      in if truthy panelId \<and> elementsById pg (the panelId) \<noteq> None then panelId else None)"

definition expanded_triggers :: "accordion_page \<Rightarrow> nat list" where
  "expanded_triggers pg =
     filter (\<lambda>i. aria_expanded (accordionTriggers pg ! i) = Some ''true'')
       [0..<length (accordionTriggers pg)]"

definition open_panels :: "accordion_page \<Rightarrow> string list" where
  "open_panels pg =
     filter (\<lambda>panelId. case elementsById pg panelId of
                          None \<Rightarrow> False
                        | Some p \<Rightarrow> panel_maxHeight p \<noteq> ''0px'')
       (remdups (List.map_filter (controls pg) [0..<length (accordionTriggers pg)]))"

text \<open>
  The two properties of a page that the accordion keeps: at most one expanded
  trigger and at most one open panel, and every open panel controlled by an
  expanded trigger.
\<close>

definition at_most_one_open :: "accordion_page \<Rightarrow> bool" where
  "at_most_one_open pg = (length (expanded_triggers pg) \<le> 1 \<and> length (open_panels pg) \<le> 1)"

definition open_consistent :: "accordion_page \<Rightarrow> bool" where
  "open_consistent pg =
     (\<forall>pid \<in> set (open_panels pg). \<exists>k \<in> set (expanded_triggers pg). controls pg k = Some pid)"

text \<open>Collapsing calls on a list of positions; the positions other than \<open>i\<close>.\<close>

abbreviation collapse_calls :: "nat list \<Rightarrow> (nat \<times> bool) list" where
  "collapse_calls js \<equiv> map (\<lambda>other. (other, False)) js"

definition others :: "nat \<Rightarrow> accordion_page \<Rightarrow> nat list" where
  "others i pg = filter (\<lambda>other. other \<noteq> i) [0..<length (accordionTriggers pg)]"

subsection \<open>Contact form (script.js, lines 315 to 398)\<close>

text \<open>
  Modelled from the spec: the markup of the form (index.html) is not among the
  sources. As the spec describes it, the form has a single shared status region and
  a per-field error slot: \<open>form_status\<close> is the text of the \<open>.form-status\<close>
  element when the form has one, and \<open>field_error\<close> the text of the
  \<open>.field-error\<close> element in the \<open>.form-field\<close> container of the field, when
  there is one, each field having a container of its own.

  Of a field the script reads the name, the value and the validity. The constraints
  of the field other than being required are given as predicates on its value.
\<close>

record form_field =
  field_name :: string
  field_value :: string
  field_defaultValue :: string
  field_required :: bool
  field_typeMismatch :: "string \<Rightarrow> bool"
  field_otherInvalid :: "string \<Rightarrow> bool"
  field_error :: "string option"

record contact_form =
  form_status :: "string option"
  form_fields :: "form_field list"

text \<open>
  The three properties of \<open>field.validity\<close> that the script reads. For an
  editable text control the browser reports a missing value when the control is
  required and its value is empty; \<open>valid\<close> holds when no constraint is violated.
\<close>

definition valueMissing :: "form_field \<Rightarrow> bool" where
  "valueMissing field = (field_required field \<and> field_value field = [])"

definition typeMismatch :: "form_field \<Rightarrow> bool" where
  "typeMismatch field = field_typeMismatch field (field_value field)"

definition valid :: "form_field \<Rightarrow> bool" where
  "valid field =
     (\<not> valueMissing field \<and> \<not> typeMismatch field
      \<and> \<not> field_otherInvalid field (field_value field))"

text \<open>
  \<open>setFieldError\<close> writes the message into the error slot of the field and does
  nothing for a field without slot.
\<close>

definition setFieldError :: "form_field \<Rightarrow> string \<Rightarrow> form_field" where
  "setFieldError field message =
     (case field_error field of
        None \<Rightarrow> field
      | Some _ \<Rightarrow> field\<lparr>field_error := Some message\<rparr>)"

definition validateField :: "form_field \<Rightarrow> form_field \<times> bool" where
  "validateField field =
     (if valid field then (setFieldError field [], True)
      else if valueMissing field then (setFieldError field ''This field is required.'', False)
      else if typeMismatch field then (setFieldError field ''Please enter a valid value.'', False)
      else (setFieldError field ''Please correct this field.'', False))"

text \<open>
  \<open>contactForm.name.value\<close>: the value of the control of that name, undefined
  when the form has no such control.
\<close>

definition named_value :: "contact_form \<Rightarrow> string \<Rightarrow> string option" where
  "named_value form n = map_option field_value (find (\<lambda>field. field_name field = n) (form_fields form))"

text \<open>
  The request passed to \<open>fetch\<close>; the body is kept as the object given to
  \<open>JSON.stringify\<close>.
\<close>

record request =
  request_url :: string
  request_method :: string
  request_content_type :: string
  body_name :: string
  body_email :: string
  body_message :: string

text \<open>
  What the submit listener asks of the browser, in the order of the calls:
  \<open>event.preventDefault()\<close>, \<open>setTimeout\<close> of the abort (milliseconds),
  \<open>fetch\<close>, \<open>clearTimeout\<close>, the awaited \<open>setTimeout\<close> of the fallback
  (milliseconds) and \<open>Math.random()\<close>.
\<close>

datatype effect = PreventDefault | SetTimeout nat | Fetch request | ClearTimeout | Delay nat | MathRandom

text \<open>
  What the browser answers: the awaited \<open>fetch\<close> yields a response with its
  \<open>ok\<close> flag, or is rejected by a network error or by the abort of the timer;
  \<open>random_draw\<close> is the value of \<open>Math.random()\<close>, should the listener ask
  for it, and \<open>trim\<close> is \<open>String.prototype.trim\<close>.
\<close>

datatype fetch_result = Response bool | NetworkError | Aborted

record submit_env =
  fetch_outcome :: fetch_result
  random_draw :: real
  trim :: "string \<Rightarrow> string"

text \<open>
  The outcome of a submit event: the form afterwards, the effects requested and the
  exception thrown, if any.
\<close>

record submission =
  after_form :: contact_form
  effects :: "effect list"
  raised :: "dom_exception option"

text \<open>
  The three status texts; the first ends with the ellipsis U+2026, in UTF-8.
\<close>

definition sending_notice :: string where
  "sending_notice = ''Sending'' @ [CHR 0xE2, CHR 0x80, CHR 0xA6]"

definition success_message :: string where
  "success_message = ''Message sent! We will reach out shortly. (Demo response)''"

definition failure_message :: string where
  "failure_message = ''Something went wrong. Please try again later. (Demo response)''"

text \<open>
  The loop of the submit listener over the fields: every field is validated, and
  \<open>isValid\<close> holds when every call returned true.
\<close>

definition validate_all :: "form_field list \<Rightarrow> form_field list \<times> bool" where
  "validate_all inputs =
     (map (\<lambda>field. fst (validateField field)) inputs,
      list_all (\<lambda>field. snd (validateField field)) inputs)"

text \<open>
  The \<open>try\<close> block and its \<open>catch\<close>, after the request has been issued: the
  value of \<open>success\<close> and the effects requested on the way.
\<close>

definition settle :: "submit_env \<Rightarrow> bool \<times> effect list" where
  "settle env =
     (case fetch_outcome env of
        Response ok \<Rightarrow> (ok, [ClearTimeout])
      | _ \<Rightarrow> (random_draw env > 0.3, [ClearTimeout, Delay 600, MathRandom]))"

text \<open>
  \<open>contactForm.reset()\<close> puts the default value back into every field.
\<close>

definition reset :: "form_field \<Rightarrow> form_field" where
  "reset field = field\<lparr>field_value := field_defaultValue field\<rparr>"

text \<open>
  The last block of the listener, guarded by \<open>if (statusEl)\<close>.
\<close>

definition report :: "bool \<Rightarrow> contact_form \<Rightarrow> contact_form" where
  "report success form =
     (case form_status form of
        None \<Rightarrow> form
      | Some _ \<Rightarrow>
          if success
          then form\<lparr>form_status := Some success_message,
                    form_fields := map (\<lambda>field. setFieldError (reset field) []) (form_fields form)\<rparr>
          else form\<lparr>form_status := Some failure_message\<rparr>)"

text \<open>
  The submit listener. Reading \<open>.value\<close> of a control the form does not have
  throws a TypeError.
\<close>

definition submit :: "submit_env \<Rightarrow> contact_form \<Rightarrow> submission" where
  "submit env form =
     (let (fields1, isValid) = validate_all (form_fields form);
          form1 = form\<lparr>form_fields := fields1\<rparr>
      in if \<not> isValid
         then \<lparr>after_form = form1, effects = [PreventDefault], raised = None\<rparr>
         else (case (named_value form1 ''name'', named_value form1 ''email'',
                     named_value form1 ''message'') of
                 (Some n, Some e, Some m) \<Rightarrow>
                   (let formData = \<lparr>request_url = ''/api/contact'', request_method = ''POST'',
                                     request_content_type = ''application/json'',
                                     body_name = trim env n, body_email = trim env e,
                                     body_message = trim env m\<rparr>;
                        form2 = (case form_status form1 of
                                   None \<Rightarrow> form1
                                 | Some _ \<Rightarrow> form1\<lparr>form_status := Some sending_notice\<rparr>);
                        (success, after) = settle env
                    in \<lparr>after_form = report success form2,
                        effects = [PreventDefault, SetTimeout 1500, Fetch formData] @ after,
                        raised = None\<rparr>)
               | _ \<Rightarrow> \<lparr>after_form = form1, effects = [PreventDefault], raised = Some TypeError\<rparr>))"

section \<open>Lists of a known length\<close>

lemma list_of_length_1: "length xs = 1 \<Longrightarrow> xs = [xs ! 0]"
  by (auto simp: length_Suc_conv)

lemma list_of_length_2: "length xs = 2 \<Longrightarrow> xs = [xs ! 0, xs ! 1]"
  by (auto simp: length_Suc_conv numeral_2_eq_2)

lemma list_of_length_3: "length xs = 3 \<Longrightarrow> xs = [xs ! 0, xs ! 1, xs ! 2]"
  by (auto simp: length_Suc_conv numeral_3_eq_3)

section \<open>Theme\<close>

lemma applyTheme_data_theme: "data_theme (applyTheme t pg) = Some t"
  by (simp add: applyTheme_def)

lemma applyTheme_storage: "localStorage (applyTheme t pg) ''luminaflow-theme'' = Some t"
  by (simp add: applyTheme_def)

lemma applyTheme_icon:
  "themeIcon (applyTheme t pg) =
     map_option (\<lambda>_. if t = ''dark'' then moon_glyph else sun_glyph) (themeIcon pg)"
  by (cases "themeIcon pg") (simp_all add: applyTheme_def)

lemma applyTheme_storage_other:
  "k \<noteq> ''luminaflow-theme'' \<Longrightarrow> localStorage (applyTheme t pg) k = localStorage pg k"
  by (simp add: applyTheme_def)

text \<open>
  C7, as the claim states it, fails at load for a document whose theme attribute is
  present but empty: the script applies light, not the empty attribute value.
\<close>

theorem C7_empty_attribute_counterexample:
  "data_theme \<lparr>data_theme = Some [], localStorage = Map.empty,
               themeIcon = Some [], themeToggle = True\<rparr> = Some []
   \<and> data_theme (theme_load \<lparr>data_theme = Some [], localStorage = Map.empty,
               themeIcon = Some [], themeToggle = True\<rparr>) = Some ''light''"
  by (simp add: theme_load_def or_default_def applyTheme_def)

text \<open>
  C7 (amended): for every theme value t (in particular light and dark), applyTheme t
  sets the data-theme attribute of the document to t, stores t under the key
  luminaflow-theme and leaves every other key of the storage alone, and sets the
  glyph of the theme icon, where the page has one, to the moon when t is dark and to
  the sun otherwise. When the script is loaded on a page with a theme toggle, the
  theme it applies is the theme attribute the document already has if that attribute
  is present and not empty, and light otherwise.
\<close>

theorem C7_applyTheme:
  "data_theme (applyTheme t pg) = Some t
   \<and> localStorage (applyTheme t pg) ''luminaflow-theme'' = Some t
   \<and> (\<forall>k. k \<noteq> ''luminaflow-theme'' \<longrightarrow> localStorage (applyTheme t pg) k = localStorage pg k)
   \<and> themeIcon (applyTheme t pg) =
       map_option (\<lambda>_. if t = ''dark'' then moon_glyph else sun_glyph) (themeIcon pg)
   \<and> moon_glyph \<noteq> sun_glyph
   \<and> (themeToggle pg \<longrightarrow>
        theme_load pg =
          applyTheme (case data_theme pg of
                        None \<Rightarrow> ''light''
                      | Some a \<Rightarrow> if a = [] then ''light'' else a) pg)"
proof -
  have glyphs: "moon_glyph \<noteq> sun_glyph"
    by (simp add: moon_glyph_def sun_glyph_def)
  have load: "themeToggle pg \<longrightarrow>
        theme_load pg =
          applyTheme (case data_theme pg of
                        None \<Rightarrow> ''light''
                      | Some a \<Rightarrow> if a = [] then ''light'' else a) pg"
    by (cases "data_theme pg") (simp_all add: theme_load_def or_default_def)
  show ?thesis
    using applyTheme_data_theme applyTheme_storage applyTheme_storage_other
      applyTheme_icon glyphs load
    by blast
qed

theorem C7_applyTheme_witness:
  "data_theme (applyTheme ''dark'' \<lparr>data_theme = None, localStorage = Map.empty,
     themeIcon = Some [], themeToggle = True\<rparr>) = Some ''dark''
   \<and> themeIcon (applyTheme ''dark'' \<lparr>data_theme = None, localStorage = Map.empty,
     themeIcon = Some [], themeToggle = True\<rparr>) = Some moon_glyph
   \<and> localStorage (applyTheme ''dark'' \<lparr>data_theme = None, localStorage = Map.empty,
     themeIcon = Some [], themeToggle = True\<rparr>) ''other-key'' = None
   \<and> data_theme (theme_load \<lparr>data_theme = None, localStorage = Map.empty,
     themeIcon = Some [], themeToggle = True\<rparr>) = Some ''light''"
  using C7_applyTheme [of "''dark''" "\<lparr>data_theme = None, localStorage = Map.empty,
     themeIcon = Some [], themeToggle = True\<rparr>"]
  by (simp add: applyTheme_def)

text \<open>
  C9: the click listener of the theme toggle reads every value of the theme
  attribute other than the string dark (an absent attribute, the empty string, any
  other string) as light: from such a state a click applies dark, and from dark a
  click applies light.
\<close>

theorem C9_toggle_click:
  "(data_theme pg \<noteq> Some ''dark'' \<longrightarrow> themeToggle_click pg = applyTheme ''dark'' pg
       \<and> data_theme (themeToggle_click pg) = Some ''dark'')
   \<and> (data_theme pg = Some ''dark'' \<longrightarrow> themeToggle_click pg = applyTheme ''light'' pg
       \<and> data_theme (themeToggle_click pg) = Some ''light'')"
  by (simp add: themeToggle_click_def applyTheme_data_theme)

theorem C9_toggle_click_witness:
  "data_theme (themeToggle_click \<lparr>data_theme = None, localStorage = Map.empty,
       themeIcon = None, themeToggle = True\<rparr>) = Some ''dark''
   \<and> data_theme (themeToggle_click \<lparr>data_theme = Some [], localStorage = Map.empty,
       themeIcon = None, themeToggle = True\<rparr>) = Some ''dark''
   \<and> data_theme (themeToggle_click \<lparr>data_theme = Some ''Dark'', localStorage = Map.empty,
       themeIcon = None, themeToggle = True\<rparr>) = Some ''dark''
   \<and> data_theme (themeToggle_click \<lparr>data_theme = Some ''dark'', localStorage = Map.empty,
       themeIcon = None, themeToggle = True\<rparr>) = Some ''light''"
  using C9_toggle_click [of "\<lparr>data_theme = None, localStorage = Map.empty,
       themeIcon = None, themeToggle = True\<rparr>"]
    C9_toggle_click [of "\<lparr>data_theme = Some [], localStorage = Map.empty,
       themeIcon = None, themeToggle = True\<rparr>"]
    C9_toggle_click [of "\<lparr>data_theme = Some ''Dark'', localStorage = Map.empty,
       themeIcon = None, themeToggle = True\<rparr>"]
    C9_toggle_click [of "\<lparr>data_theme = Some ''dark'', localStorage = Map.empty,
       themeIcon = None, themeToggle = True\<rparr>"]
  by (simp add: applyTheme_data_theme)

section \<open>Smooth scrolling\<close>

text \<open>
  The three outcomes of \<open>scrollToHash\<close>. When the query finds an element the
  request goes to the top of its bounding rectangle plus the scroll position of the
  window, minus the height of the header (0 on a page without header), plus one,
  the operations applied in that order. When the query finds no element, or raises
  an exception, no request is issued. The click listener passes every anchor
  reference longer than one character to \<open>scrollToHash\<close>, after
  \<open>preventDefault\<close>.
\<close>

lemma scrollToHash_outcomes:
  "(querySelector pg hash = Inr (Some target) \<longrightarrow>
      scrollToHash js pg hash =
        Inr (Some \<lparr>top = num_add js
                          (num_sub js (num_add js (rect_top target) (scrollY pg))
                             (case header pg of None \<Rightarrow> num_of js 0 | Some h \<Rightarrow> num_of js (real h)))
                          (num_of js 1),
                    behavior = (if prefersReducedMotion pg then ''auto'' else ''smooth'')\<rparr>))
   \<and> (querySelector pg hash = Inr None \<longrightarrow> scrollToHash js pg hash = Inr None)
   \<and> (querySelector pg hash = Inl e \<longrightarrow> scrollToHash js pg hash = Inl e)
   \<and> (length hash > 1 \<longrightarrow> anchor_click js pg (Some hash) = (True, scrollToHash js pg hash))"
  by (auto simp: scrollToHash_def anchor_click_def truthy_def Let_def)

text \<open>
  C8 holds of the script wherever the query returns: the destination is the one the
  claim gives, and a hash that selects nothing scrolls nothing. It fails for an
  anchor whose target has an id that is no CSS identifier. On a page with an
  element of id 2024 and a link to #2024 the hash resolves to that element, but
  \<open>document.querySelector\<close> raises SyntaxError on the selector #2024, whatever
  the document holds, because an id selector cannot begin with a digit. The
  listener has called \<open>preventDefault\<close> by then, so the click neither scrolls
  to the element nor jumps to it.
\<close>

theorem C8_digit_id_not_scrolled:
  "anchor_click exact_numbers
     \<lparr>querySelector = (\<lambda>s. if s = ''#2024'' then Inl SyntaxError else Inr None),
      header = Some 72, scrollY = 100, prefersReducedMotion = False\<rparr>
     (Some ''#2024'')
   = (True, Inl SyntaxError)"
  by (simp add: anchor_click_def scrollToHash_def truthy_def)

text \<open>An anchor that the query resolves, with exact numbers.\<close>

lemma scrollToHash_example:
  "scrollToHash exact_numbers
     \<lparr>querySelector = (\<lambda>s. if s = ''#pricing'' then Inr (Some \<lparr>rect_top = 640\<rparr>) else Inr None),
      header = Some 72, scrollY = 100, prefersReducedMotion = False\<rparr> ''#pricing''
   = Inr (Some \<lparr>top = 669, behavior = ''smooth''\<rparr>)"
  by (simp add: scrollToHash_def exact_numbers_def)

section \<open>Pricing toggle\<close>

lemma updatePricing_lengths:
  "length (billingButtons (updatePricing b pg)) = length (billingButtons pg)"
  "length (pricingCards (updatePricing b pg)) = length (pricingCards pg)"
  "length (cycleSuffix (updatePricing b pg)) = length (cycleSuffix pg)"
  by (simp_all add: updatePricing_def)

lemma updatePricing_card:
  "i < length (pricingCards pg) \<Longrightarrow>
   pricingCards (updatePricing b pg) ! i = update_card b (pricingCards pg ! i)"
  by (simp add: updatePricing_def)

lemma updatePricing_suffix:
  "cycleSuffix (updatePricing b pg) =
     map (\<lambda>_. if b = Some ''yearly'' then ''/mo billed yearly'' else ''/mo'') (cycleSuffix pg)"
  by (simp add: updatePricing_def update_suffix_def)

lemma update_card_incomplete:
  "amountEl pc = None \<or> cta pc = None \<Longrightarrow> update_card b pc = pc"
  by (auto simp: update_card_def split: option.splits)

lemma update_card_complete:
  assumes "amountEl pc = Some amount" and "cta pc = Some link"
  shows "\<exists>amount' link'.
     amountEl (update_card (Some b) pc) = Some amount'
     \<and> cta (update_card (Some b) pc) = Some link'
     \<and> amount_dataset amount' = amount_dataset amount
     \<and> cta_dataset link' = cta_dataset link
     \<and> amount_textContent amount' =
         (if truthy (amount_dataset amount b) then the (amount_dataset amount b)
          else amount_textContent amount)
     \<and> cta_href link' =
         (if truthy (cta_dataset link (b @ ''Link'')) then cta_dataset link (b @ ''Link'')
          else cta_href link)"
  using assms by (simp add: update_card_def property_key_def Let_def)

lemma billing_click_active:
  "i < length (billingButtons pg) \<Longrightarrow> ''is-active'' \<in> btn_classList (billingButtons pg ! i) \<Longrightarrow>
   billing_click i pg = pg"
  by (simp add: billing_click_def)

lemma billing_click_current:
  assumes "i < length (billingButtons pg)" and "btn_billing (billingButtons pg ! i) = b"
  shows "billing_click i (updatePricing b pg) = updatePricing b pg"
proof -
  have "''is-active'' \<in> btn_classList (billingButtons (updatePricing b pg) ! i)"
    using assms by (simp add: updatePricing_def update_button_def classList_toggle_def)
  then show ?thesis
    using assms(1) by (simp add: billing_click_active updatePricing_lengths(1))
qed

text \<open>
  C1, as the claim states it, fails for a card that has an amount element with a
  yearly price but no call-to-action link: updatePricing returns from that card
  before it touches the amount, which keeps the monthly price.
\<close>

theorem C1_card_without_cta_counterexample:
  "map (map_option (\<lambda>a. (amount_dataset a ''yearly'', amount_textContent a)) \<circ> amountEl)
     (pricingCards (updatePricing (Some ''yearly'')
        \<lparr>billingButtons = [],
         pricingCards = [\<lparr>amountEl = Some \<lparr>amount_textContent = ''29'',
                            amount_dataset = [''monthly'' \<mapsto> ''29'', ''yearly'' \<mapsto> ''24'']\<rparr>,
                          cta = None\<rparr>],
         cycleSuffix = [''/mo'']\<rparr>))
   = [Some (Some ''24'', ''29'')]"
  by (simp add: updatePricing_def update_card_def)

text \<open>
  C1 (amended): after updatePricing('yearly'), every pricing card that has both an
  amount element and a call-to-action link, and whose amount element carries a
  yearly price attribute that is not empty, displays that yearly price, and every
  cycle suffix reads "/mo billed yearly"; the numbers of cards and of suffix labels
  do not change. A click on a billing option that is already active (it has the
  class is-active, as the option of the cycle last passed to updatePricing has)
  leaves the whole pricing state unchanged.
\<close>

theorem C1_yearly_pricing:
  "length (pricingCards (updatePricing (Some ''yearly'') pg)) = length (pricingCards pg)
   \<and> (\<forall>i amount link price.
        i < length (pricingCards pg)
        \<and> amountEl (pricingCards pg ! i) = Some amount
        \<and> cta (pricingCards pg ! i) = Some link
        \<and> amount_dataset amount ''yearly'' = Some price \<and> price \<noteq> [] \<longrightarrow>
        (\<exists>amount'. amountEl (pricingCards (updatePricing (Some ''yearly'') pg) ! i) = Some amount'
           \<and> amount_textContent amount' = price
           \<and> amount_dataset amount' ''yearly'' = Some price))
   \<and> cycleSuffix (updatePricing (Some ''yearly'') pg)
       = replicate (length (cycleSuffix pg)) ''/mo billed yearly''
   \<and> (\<forall>i. i < length (billingButtons pg)
          \<and> ''is-active'' \<in> btn_classList (billingButtons pg ! i) \<longrightarrow>
          billing_click i pg = pg)
   \<and> (\<forall>i b. i < length (billingButtons pg) \<and> btn_billing (billingButtons pg ! i) = b \<longrightarrow>
          billing_click i (updatePricing b pg) = updatePricing b pg)"
proof -
  have cards: "\<exists>amount'. amountEl (pricingCards (updatePricing (Some ''yearly'') pg) ! i) = Some amount'
           \<and> amount_textContent amount' = price
           \<and> amount_dataset amount' ''yearly'' = Some price"
    if inrange: "i < length (pricingCards pg)"
      and has_amount: "amountEl (pricingCards pg ! i) = Some amount"
      and has_link: "cta (pricingCards pg ! i) = Some link"
      and has_price: "amount_dataset amount ''yearly'' = Some price" "price \<noteq> []"
    for i amount link price
  proof -
    obtain amount' where
      "amountEl (update_card (Some ''yearly'') (pricingCards pg ! i)) = Some amount'"
      "amount_dataset amount' = amount_dataset amount"
      "amount_textContent amount' =
         (if truthy (amount_dataset amount ''yearly'') then the (amount_dataset amount ''yearly'')
          else amount_textContent amount)"
      using update_card_complete [OF has_amount has_link, of "''yearly''"] by blast
    with inrange has_price show ?thesis
      by (simp add: updatePricing_card truthy_def)
  qed
  have suffix: "cycleSuffix (updatePricing (Some ''yearly'') pg)
       = replicate (length (cycleSuffix pg)) ''/mo billed yearly''"
    by (simp add: updatePricing_suffix map_replicate_const)
  show ?thesis
    using cards suffix billing_click_active billing_click_current updatePricing_lengths(2)
    by blast
qed

theorem C1_yearly_pricing_witness:
  "map (map_option amount_textContent \<circ> amountEl)
     (pricingCards (updatePricing (Some ''yearly'')
        \<lparr>billingButtons = [\<lparr>btn_billing = Some ''monthly'', btn_classList = {''is-active''},
                             btn_aria_pressed = Some ''true''\<rparr>,
                           \<lparr>btn_billing = Some ''yearly'', btn_classList = {},
                             btn_aria_pressed = Some ''false''\<rparr>],
         pricingCards = [\<lparr>amountEl = Some \<lparr>amount_textContent = ''29'',
                            amount_dataset = [''monthly'' \<mapsto> ''29'', ''yearly'' \<mapsto> ''24'']\<rparr>,
                          cta = Some \<lparr>cta_href = Some ''/buy'', cta_dataset = Map.empty\<rparr>\<rparr>],
         cycleSuffix = [''/mo'']\<rparr>))
   = [Some ''24'']
   \<and> cycleSuffix (updatePricing (Some ''yearly'')
        \<lparr>billingButtons = [\<lparr>btn_billing = Some ''monthly'', btn_classList = {''is-active''},
                             btn_aria_pressed = Some ''true''\<rparr>,
                           \<lparr>btn_billing = Some ''yearly'', btn_classList = {},
                             btn_aria_pressed = Some ''false''\<rparr>],
         pricingCards = [\<lparr>amountEl = Some \<lparr>amount_textContent = ''29'',
                            amount_dataset = [''monthly'' \<mapsto> ''29'', ''yearly'' \<mapsto> ''24'']\<rparr>,
                          cta = Some \<lparr>cta_href = Some ''/buy'', cta_dataset = Map.empty\<rparr>\<rparr>],
         cycleSuffix = [''/mo'']\<rparr>) = [''/mo billed yearly'']
   \<and> billing_click 0
        \<lparr>billingButtons = [\<lparr>btn_billing = Some ''monthly'', btn_classList = {''is-active''},
                             btn_aria_pressed = Some ''true''\<rparr>,
                           \<lparr>btn_billing = Some ''yearly'', btn_classList = {},
                             btn_aria_pressed = Some ''false''\<rparr>],
         pricingCards = [\<lparr>amountEl = Some \<lparr>amount_textContent = ''29'',
                            amount_dataset = [''monthly'' \<mapsto> ''29'', ''yearly'' \<mapsto> ''24'']\<rparr>,
                          cta = Some \<lparr>cta_href = Some ''/buy'', cta_dataset = Map.empty\<rparr>\<rparr>],
         cycleSuffix = [''/mo'']\<rparr>
     = \<lparr>billingButtons = [\<lparr>btn_billing = Some ''monthly'', btn_classList = {''is-active''},
                             btn_aria_pressed = Some ''true''\<rparr>,
                           \<lparr>btn_billing = Some ''yearly'', btn_classList = {},
                             btn_aria_pressed = Some ''false''\<rparr>],
         pricingCards = [\<lparr>amountEl = Some \<lparr>amount_textContent = ''29'',
                            amount_dataset = [''monthly'' \<mapsto> ''29'', ''yearly'' \<mapsto> ''24'']\<rparr>,
                          cta = Some \<lparr>cta_href = Some ''/buy'', cta_dataset = Map.empty\<rparr>\<rparr>],
         cycleSuffix = [''/mo'']\<rparr>"
proof -
  let ?amount = "\<lparr>amount_textContent = ''29'',
                   amount_dataset = [''monthly'' \<mapsto> ''29'', ''yearly'' \<mapsto> ''24'']\<rparr>"
  let ?link = "\<lparr>cta_href = Some ''/buy'', cta_dataset = Map.empty\<rparr>"
  let ?pg = "\<lparr>billingButtons = [\<lparr>btn_billing = Some ''monthly'', btn_classList = {''is-active''},
                             btn_aria_pressed = Some ''true''\<rparr>,
                           \<lparr>btn_billing = Some ''yearly'', btn_classList = {},
                             btn_aria_pressed = Some ''false''\<rparr>],
         pricingCards = [\<lparr>amountEl = Some ?amount, cta = Some ?link\<rparr>],
         cycleSuffix = [''/mo'']\<rparr>"
  note main = C1_yearly_pricing [of ?pg]
  have len: "length (pricingCards (updatePricing (Some ''yearly'') ?pg)) = 1"
    using main by simp
  have "\<exists>amount'. amountEl (pricingCards (updatePricing (Some ''yearly'') ?pg) ! 0) = Some amount'
           \<and> amount_textContent amount' = ''24''
           \<and> amount_dataset amount' ''yearly'' = Some ''24''"
    using main [THEN conjunct2, THEN conjunct1, rule_format, of 0 ?amount ?link "''24''"]
    by simp
  then have pc: "map (map_option amount_textContent \<circ> amountEl)
     (pricingCards (updatePricing (Some ''yearly'') ?pg)) = [Some ''24'']"
    using len by (cases "pricingCards (updatePricing (Some ''yearly'') ?pg)") auto
  have suffix: "cycleSuffix (updatePricing (Some ''yearly'') ?pg) = [''/mo billed yearly'']"
    using main by simp
  have click: "billing_click 0 ?pg = ?pg"
    using main [THEN conjunct2, THEN conjunct2, THEN conjunct2, THEN conjunct1, rule_format, of 0]
    by simp
  show ?thesis
    using pc suffix click by simp
qed

text \<open>
  C10: for the billing cycle monthly or yearly, updatePricing leaves a card that
  lacks its amount element or its call-to-action link exactly as it was; on a card
  that has both it leaves the displayed amount unchanged when the price attribute
  of the cycle is absent or empty, and the link target unchanged when the link
  attribute of the cycle is absent or empty. It never fails, every other card gets
  the attributes it does carry, and every suffix label is set.
\<close>

theorem C10_missing_attributes_frame:
  assumes "billing = ''monthly'' \<or> billing = ''yearly''"
  shows "length (pricingCards (updatePricing (Some billing) pg)) = length (pricingCards pg)
   \<and> (\<forall>i. i < length (pricingCards pg)
          \<and> (amountEl (pricingCards pg ! i) = None \<or> cta (pricingCards pg ! i) = None) \<longrightarrow>
          pricingCards (updatePricing (Some billing) pg) ! i = pricingCards pg ! i)
   \<and> (\<forall>i amount link.
        i < length (pricingCards pg)
        \<and> amountEl (pricingCards pg ! i) = Some amount
        \<and> cta (pricingCards pg ! i) = Some link \<longrightarrow>
        (\<exists>amount' link'.
           amountEl (pricingCards (updatePricing (Some billing) pg) ! i) = Some amount'
           \<and> cta (pricingCards (updatePricing (Some billing) pg) ! i) = Some link'
           \<and> amount_dataset amount' = amount_dataset amount
           \<and> cta_dataset link' = cta_dataset link
           \<and> amount_textContent amount' =
               (if truthy (amount_dataset amount billing) then the (amount_dataset amount billing)
                else amount_textContent amount)
           \<and> cta_href link' =
               (if truthy (cta_dataset link (billing @ ''Link''))
                then cta_dataset link (billing @ ''Link'')
                else cta_href link)))
   \<and> cycleSuffix (updatePricing (Some billing) pg)
       = replicate (length (cycleSuffix pg))
           (if billing = ''yearly'' then ''/mo billed yearly'' else ''/mo'')"
proof -
  have incomplete: "pricingCards (updatePricing (Some billing) pg) ! i = pricingCards pg ! i"
    if "i < length (pricingCards pg)"
      and "amountEl (pricingCards pg ! i) = None \<or> cta (pricingCards pg ! i) = None" for i
    using that by (simp add: updatePricing_card update_card_incomplete)
  have complete: "\<exists>amount' link'.
           amountEl (pricingCards (updatePricing (Some billing) pg) ! i) = Some amount'
           \<and> cta (pricingCards (updatePricing (Some billing) pg) ! i) = Some link'
           \<and> amount_dataset amount' = amount_dataset amount
           \<and> cta_dataset link' = cta_dataset link
           \<and> amount_textContent amount' =
               (if truthy (amount_dataset amount billing) then the (amount_dataset amount billing)
                else amount_textContent amount)
           \<and> cta_href link' =
               (if truthy (cta_dataset link (billing @ ''Link''))
                then cta_dataset link (billing @ ''Link'')
                else cta_href link)"
    if "i < length (pricingCards pg)" and "amountEl (pricingCards pg ! i) = Some amount"
      and "cta (pricingCards pg ! i) = Some link" for i amount link
    using update_card_complete [OF that(2) that(3), of billing] that(1)
    by (simp add: updatePricing_card)
  have suffix: "cycleSuffix (updatePricing (Some billing) pg)
       = replicate (length (cycleSuffix pg))
           (if billing = ''yearly'' then ''/mo billed yearly'' else ''/mo'')"
    by (simp add: updatePricing_suffix map_replicate_const)
  show ?thesis
    using incomplete complete suffix updatePricing_lengths(2) by blast
qed

theorem C10_missing_attributes_frame_witness:
  "pricingCards (updatePricing (Some ''yearly'')
      \<lparr>billingButtons = [],
       pricingCards =
         [\<lparr>amountEl = Some \<lparr>amount_textContent = ''9'', amount_dataset = [''yearly'' \<mapsto> ''7'']\<rparr>,
           cta = None\<rparr>,
          \<lparr>amountEl = Some \<lparr>amount_textContent = ''29'', amount_dataset = [''monthly'' \<mapsto> ''29'']\<rparr>,
           cta = Some \<lparr>cta_href = Some ''/pro'', cta_dataset = [''yearlyLink'' \<mapsto> ''/pro-y'']\<rparr>\<rparr>,
          \<lparr>amountEl = Some \<lparr>amount_textContent = ''99'', amount_dataset = [''yearly'' \<mapsto> ''79'']\<rparr>,
           cta = Some \<lparr>cta_href = Some ''/team'', cta_dataset = Map.empty\<rparr>\<rparr>],
       cycleSuffix = [''/mo'', ''/mo'']\<rparr>)
   = [\<lparr>amountEl = Some \<lparr>amount_textContent = ''9'', amount_dataset = [''yearly'' \<mapsto> ''7'']\<rparr>,
           cta = None\<rparr>,
          \<lparr>amountEl = Some \<lparr>amount_textContent = ''29'', amount_dataset = [''monthly'' \<mapsto> ''29'']\<rparr>,
           cta = Some \<lparr>cta_href = Some ''/pro-y'', cta_dataset = [''yearlyLink'' \<mapsto> ''/pro-y'']\<rparr>\<rparr>,
          \<lparr>amountEl = Some \<lparr>amount_textContent = ''79'', amount_dataset = [''yearly'' \<mapsto> ''79'']\<rparr>,
           cta = Some \<lparr>cta_href = Some ''/team'', cta_dataset = Map.empty\<rparr>\<rparr>]
   \<and> cycleSuffix (updatePricing (Some ''yearly'')
      \<lparr>billingButtons = [],
       pricingCards =
         [\<lparr>amountEl = Some \<lparr>amount_textContent = ''9'', amount_dataset = [''yearly'' \<mapsto> ''7'']\<rparr>,
           cta = None\<rparr>,
          \<lparr>amountEl = Some \<lparr>amount_textContent = ''29'', amount_dataset = [''monthly'' \<mapsto> ''29'']\<rparr>,
           cta = Some \<lparr>cta_href = Some ''/pro'', cta_dataset = [''yearlyLink'' \<mapsto> ''/pro-y'']\<rparr>\<rparr>,
          \<lparr>amountEl = Some \<lparr>amount_textContent = ''99'', amount_dataset = [''yearly'' \<mapsto> ''79'']\<rparr>,
           cta = Some \<lparr>cta_href = Some ''/team'', cta_dataset = Map.empty\<rparr>\<rparr>],
       cycleSuffix = [''/mo'', ''/mo'']\<rparr>)
   = [''/mo billed yearly'', ''/mo billed yearly'']"
proof -
  let ?c0 = "\<lparr>amountEl = Some \<lparr>amount_textContent = ''9'', amount_dataset = [''yearly'' \<mapsto> ''7'']\<rparr>,
           cta = None\<rparr>"
  let ?a1 = "\<lparr>amount_textContent = ''29'', amount_dataset = [''monthly'' \<mapsto> ''29'']\<rparr>"
  let ?l1 = "\<lparr>cta_href = Some ''/pro'', cta_dataset = [''yearlyLink'' \<mapsto> ''/pro-y'']\<rparr>"
  let ?a2 = "\<lparr>amount_textContent = ''99'', amount_dataset = [''yearly'' \<mapsto> ''79'']\<rparr>"
  let ?l2 = "\<lparr>cta_href = Some ''/team'', cta_dataset = Map.empty\<rparr>"
  let ?pg = "\<lparr>billingButtons = [],
       pricingCards = [?c0, \<lparr>amountEl = Some ?a1, cta = Some ?l1\<rparr>,
                       \<lparr>amountEl = Some ?a2, cta = Some ?l2\<rparr>],
       cycleSuffix = [''/mo'', ''/mo'']\<rparr>"
  let ?cards' = "pricingCards (updatePricing (Some ''yearly'') ?pg)"
  have cycle: "''yearly'' = ''monthly'' \<or> ''yearly'' = ''yearly''"
    by simp
  note main = C10_missing_attributes_frame [OF cycle, of ?pg]
  have len: "length ?cards' = 3"
    using main by simp
  have c0: "?cards' ! 0 = ?c0"
    using main [THEN conjunct2, THEN conjunct1, rule_format, of 0] by simp
  have "\<exists>amount' link'. amountEl (?cards' ! 1) = Some amount' \<and> cta (?cards' ! 1) = Some link'
      \<and> amount_dataset amount' = amount_dataset ?a1 \<and> cta_dataset link' = cta_dataset ?l1
      \<and> amount_textContent amount' = ''29'' \<and> cta_href link' = Some ''/pro-y''"
    using main [THEN conjunct2, THEN conjunct2, THEN conjunct1, rule_format, of 1 ?a1 ?l1]
    by (simp add: truthy_def)
  then have c1: "?cards' ! 1 =
      \<lparr>amountEl = Some \<lparr>amount_textContent = ''29'', amount_dataset = [''monthly'' \<mapsto> ''29'']\<rparr>,
       cta = Some \<lparr>cta_href = Some ''/pro-y'', cta_dataset = [''yearlyLink'' \<mapsto> ''/pro-y'']\<rparr>\<rparr>"
    by (cases "?cards' ! 1") auto
  have "\<exists>amount' link'. amountEl (?cards' ! 2) = Some amount' \<and> cta (?cards' ! 2) = Some link'
      \<and> amount_dataset amount' = amount_dataset ?a2 \<and> cta_dataset link' = cta_dataset ?l2
      \<and> amount_textContent amount' = ''79'' \<and> cta_href link' = Some ''/team''"
    using main [THEN conjunct2, THEN conjunct2, THEN conjunct1, rule_format, of 2 ?a2 ?l2]
    by (simp add: truthy_def)
  then have c2: "?cards' ! 2 =
      \<lparr>amountEl = Some \<lparr>amount_textContent = ''79'', amount_dataset = [''yearly'' \<mapsto> ''79'']\<rparr>,
       cta = Some \<lparr>cta_href = Some ''/team'', cta_dataset = Map.empty\<rparr>\<rparr>"
    by (cases "?cards' ! 2") auto
  have cards: "?cards' = [?cards' ! 0, ?cards' ! 1, ?cards' ! 2]"
    using len by (rule list_of_length_3)
  have suffix: "cycleSuffix (updatePricing (Some ''yearly'') ?pg)
      = [''/mo billed yearly'', ''/mo billed yearly'']"
    using main by (simp add: numeral_2_eq_2)
  show ?thesis
    using cards c0 c1 c2 suffix by simp
qed

section \<open>Accordion\<close>

lemma setAccordionState_length [simp]:
  "length (accordionTriggers (setAccordionState j b pg)) = length (accordionTriggers pg)"
  by (simp add: setAccordionState_def Let_def split: option.splits)

lemma setAccordionState_trigger:
  "k < length (accordionTriggers pg) \<Longrightarrow> j < length (accordionTriggers pg) \<Longrightarrow>
   accordionTriggers (setAccordionState j b pg) ! k =
     (if k = j then (accordionTriggers pg ! j)\<lparr>aria_expanded := Some (String_of_bool b)\<rparr>
      else accordionTriggers pg ! k)"
  by (simp add: setAccordionState_def Let_def split: option.splits)

lemma setAccordionState_element:
  "j < length (accordionTriggers pg) \<Longrightarrow>
   elementsById (setAccordionState j b pg) pid =
     (if controls pg j = Some pid
      then map_option (\<lambda>p. p\<lparr>panel_aria_hidden := Some (String_of_bool (\<not> b)),
                             panel_maxHeight := (if b then String_of_nat (panel_scrollHeight p) @ ''px''
                                                 else ''0px'')\<rparr>)
             (elementsById pg pid)
      else elementsById pg pid)"
  by (auto simp: setAccordionState_def controls_def Let_def truthy_def split: option.splits)

lemma setAccordionState_controls:
  assumes "j < length (accordionTriggers pg)" and "k < length (accordionTriggers pg)"
  shows "controls (setAccordionState j b pg) k = controls pg k"
proof -
  have "aria_controls (accordionTriggers (setAccordionState j b pg) ! k)
      = aria_controls (accordionTriggers pg ! k)"
    using assms by (simp add: setAccordionState_trigger)
  moreover have "(elementsById (setAccordionState j b pg) pid = None) = (elementsById pg pid = None)"
    for pid
    using assms(1) by (simp add: setAccordionState_element)
  ultimately show ?thesis
    by (simp add: controls_def Let_def)
qed

lemma setAccordionState_out_of_range:
  "\<not> j < length (accordionTriggers pg) \<Longrightarrow> setAccordionState j b pg = pg"
  by (simp add: setAccordionState_def)

lemma mem_expanded_triggers:
  "i \<in> set (expanded_triggers pg) \<longleftrightarrow>
     i < length (accordionTriggers pg) \<and> aria_expanded (accordionTriggers pg ! i) = Some ''true''"
  by (auto simp: expanded_triggers_def)

lemma distinct_expanded_triggers: "distinct (expanded_triggers pg)"
  by (simp add: expanded_triggers_def)

lemma mem_open_panels:
  "pid \<in> set (open_panels pg) \<longleftrightarrow>
     (\<exists>i < length (accordionTriggers pg). controls pg i = Some pid)
     \<and> (\<exists>p. elementsById pg pid = Some p \<and> panel_maxHeight p \<noteq> ''0px'')"
  by (auto simp: open_panels_def map_filter_def image_iff split: option.splits)

lemma distinct_open_panels: "distinct (open_panels pg)"
  by (simp add: open_panels_def)

lemma expanded_after_call:
  assumes "j < length (accordionTriggers pg)"
  shows "set (expanded_triggers (setAccordionState j b pg)) =
           (if b then insert j (set (expanded_triggers pg)) else set (expanded_triggers pg) - {j})"
  using assms
  by (auto simp: mem_expanded_triggers setAccordionState_trigger String_of_bool_def
        split: if_splits)

lemma open_after_collapse:
  assumes "j < length (accordionTriggers pg)"
  shows "set (open_panels (setAccordionState j False pg)) =
           set (open_panels pg) - {pid. controls pg j = Some pid}"
proof -
  have "pid \<in> set (open_panels (setAccordionState j False pg)) \<longleftrightarrow>
        pid \<in> set (open_panels pg) \<and> controls pg j \<noteq> Some pid" for pid
    using assms
    by (simp add: mem_open_panels setAccordionState_controls setAccordionState_element
          cong: conj_cong) auto
  then show ?thesis by auto
qed

lemma open_after_call:
  assumes "j < length (accordionTriggers pg)"
  shows "set (open_panels (setAccordionState j b pg)) \<subseteq>
           set (open_panels pg) \<union> {pid. controls pg j = Some pid}"
  using assms
  by (auto simp: mem_open_panels setAccordionState_controls setAccordionState_element
        split: if_splits)


lemma map_of_length_2: "length xs = 2 \<Longrightarrow> map f xs = [f (xs ! 0), f (xs ! 1)]"
  by (auto simp: length_Suc_conv numeral_2_eq_2)

lemma distinct_length_le_1:
  assumes "distinct xs" and "set xs \<subseteq> {a}"
  shows "length xs \<le> 1"
proof -
  have "card (set xs) \<le> card {a}"
    using assms(2) by (intro card_mono) simp_all
  then show ?thesis
    using assms(1) by (simp add: distinct_card)
qed

lemma distinct_length_mono:
  assumes "distinct xs" and "distinct ys" and "set xs \<subseteq> set ys"
  shows "length xs \<le> length ys"
proof -
  have "card (set xs) \<le> card (set ys)"
    using assms(3) by (intro card_mono) simp_all
  then show ?thesis
    using assms(1,2) by (simp add: distinct_card)
qed

lemma at_most_one_open_mono:
  assumes "at_most_one_open pg"
    and "set (expanded_triggers pg') \<subseteq> set (expanded_triggers pg)"
    and "set (open_panels pg') \<subseteq> set (open_panels pg)"
  shows "at_most_one_open pg'"
proof -
  have "length (expanded_triggers pg') \<le> length (expanded_triggers pg)"
    using assms(2) by (intro distinct_length_mono distinct_expanded_triggers)
  moreover have "length (open_panels pg') \<le> length (open_panels pg)"
    using assms(3) by (intro distinct_length_mono distinct_open_panels)
  ultimately show ?thesis
    using assms(1) by (simp add: at_most_one_open_def)
qed

lemma after_calls_Nil [simp]: "after_calls [] pg = pg"
  by (simp add: after_calls_def)

lemma after_calls_Cons [simp]:
  "after_calls ((j, b) # calls) pg = after_calls calls (setAccordionState j b pg)"
  by (simp add: after_calls_def)

lemma call_states_append:
  "call_states (xs @ ys) pg = call_states xs pg @ call_states ys (after_calls xs pg)"
  by (induction xs pg rule: call_states.induct) simp_all

lemma after_calls_append:
  "after_calls (xs @ ys) pg = after_calls ys (after_calls xs pg)"
  by (induction xs pg rule: call_states.induct) simp_all

lemma fold_collapse:
  "fold (\<lambda>other s. if other \<noteq> i then setAccordionState other False s else s) js pg
   = after_calls (collapse_calls (filter (\<lambda>other. other \<noteq> i) js)) pg"
  by (induction js arbitrary: pg) simp_all

lemma fold_collapse_all:
  "fold (\<lambda>j s. setAccordionState j False s) js pg = after_calls (collapse_calls js) pg"
  by (induction js arbitrary: pg) simp_all

lemma accordion_load_calls:
  "accordion_load pg = after_calls (collapse_calls [0..<length (accordionTriggers pg)]) pg"
  by (simp add: accordion_load_def fold_collapse_all)

lemma collapse_states:
  assumes "s \<in> set (call_states (collapse_calls js) pg)"
  shows "set (expanded_triggers s) \<subseteq> set (expanded_triggers pg)
       \<and> set (open_panels s) \<subseteq> set (open_panels pg)"
  using assms
proof (induction js arbitrary: pg)
  case Nil
  then show ?case by simp
next
  case (Cons j js)
  let ?pg' = "setAccordionState j False pg"
  have step: "set (expanded_triggers ?pg') \<subseteq> set (expanded_triggers pg)
       \<and> set (open_panels ?pg') \<subseteq> set (open_panels pg)"
  proof (cases "j < length (accordionTriggers pg)")
    case True
    then show ?thesis
      by (auto simp: expanded_after_call open_after_collapse)
  next
    case False
    then show ?thesis
      by (simp add: setAccordionState_out_of_range)
  qed
  from Cons.prems have "s = ?pg' \<or> s \<in> set (call_states (collapse_calls js) ?pg')"
    by simp
  then show ?case
  proof
    assume "s = ?pg'"
    with step show ?thesis by simp
  next
    assume "s \<in> set (call_states (collapse_calls js) ?pg')"
    from Cons.IH [OF this] step show ?thesis by blast
  qed
qed

lemma after_collapse:
  assumes "\<forall>j \<in> set js. j < length (accordionTriggers pg)"
  shows "length (accordionTriggers (after_calls (collapse_calls js) pg)) = length (accordionTriggers pg)
       \<and> (\<forall>k < length (accordionTriggers pg).
             controls (after_calls (collapse_calls js) pg) k = controls pg k)
       \<and> (\<forall>k < length (accordionTriggers pg).
             accordionTriggers (after_calls (collapse_calls js) pg) ! k =
               (if k \<in> set js then (accordionTriggers pg ! k)\<lparr>aria_expanded := Some ''false''\<rparr>
                else accordionTriggers pg ! k))
       \<and> set (expanded_triggers (after_calls (collapse_calls js) pg))
            = set (expanded_triggers pg) - set js
       \<and> set (open_panels (after_calls (collapse_calls js) pg))
            = set (open_panels pg) - {pid. \<exists>j \<in> set js. controls pg j = Some pid}"
  using assms
proof (induction js arbitrary: pg)
  case Nil
  then show ?case by simp
next
  case (Cons j js)
  let ?pg' = "setAccordionState j False pg"
  have j: "j < length (accordionTriggers pg)"
    using Cons.prems by simp
  have "\<forall>j \<in> set js. j < length (accordionTriggers ?pg')"
    using Cons.prems by simp
  note IH = Cons.IH [OF this]
  have ctl: "\<forall>k < length (accordionTriggers pg). controls ?pg' k = controls pg k"
    using j by (simp add: setAccordionState_controls)
  have trig: "\<forall>k < length (accordionTriggers pg).
      accordionTriggers ?pg' ! k =
        (if k = j then (accordionTriggers pg ! k)\<lparr>aria_expanded := Some ''false''\<rparr>
         else accordionTriggers pg ! k)"
    using j by (simp add: setAccordionState_trigger String_of_bool_def)
  have c1: "length (accordionTriggers (after_calls (collapse_calls (j # js)) pg))
      = length (accordionTriggers pg)"
    using IH by simp
  have c2: "\<forall>k < length (accordionTriggers pg).
             controls (after_calls (collapse_calls (j # js)) pg) k = controls pg k"
    using IH ctl by simp
  have c3: "\<forall>k < length (accordionTriggers pg).
             accordionTriggers (after_calls (collapse_calls (j # js)) pg) ! k =
               (if k \<in> set (j # js) then (accordionTriggers pg ! k)\<lparr>aria_expanded := Some ''false''\<rparr>
                else accordionTriggers pg ! k)"
    using IH trig by simp
  have c4: "set (expanded_triggers (after_calls (collapse_calls (j # js)) pg))
            = set (expanded_triggers pg) - set (j # js)"
    using IH j by (auto simp: expanded_after_call)
  have "set (open_panels (after_calls (collapse_calls (j # js)) pg))
      = (set (open_panels pg) - {pid. controls pg j = Some pid})
          - {pid. \<exists>j \<in> set js. controls ?pg' j = Some pid}"
    using IH j by (simp add: open_after_collapse)
  also have "{pid. \<exists>j \<in> set js. controls ?pg' j = Some pid}
      = {pid. \<exists>j \<in> set js. controls pg j = Some pid}"
    using ctl Cons.prems by auto
  finally have c5: "set (open_panels (after_calls (collapse_calls (j # js)) pg))
            = set (open_panels pg) - {pid. \<exists>j \<in> set (j # js). controls pg j = Some pid}"
    by auto
  show ?case
    using c1 c2 c3 c4 c5 by blast
qed


lemma collapse_scrollHeight:
  "map_option panel_scrollHeight (elementsById (after_calls (collapse_calls js) pg) pid)
     = map_option panel_scrollHeight (elementsById pg pid)"
proof (induction js arbitrary: pg)
  case Nil
  show ?case by simp
next
  case (Cons j js)
  have "map_option panel_scrollHeight (elementsById (setAccordionState j False pg) pid)
     = map_option panel_scrollHeight (elementsById pg pid)"
    by (cases "j < length (accordionTriggers pg)")
      (simp_all add: setAccordionState_element setAccordionState_out_of_range option.map_comp
         comp_def)
  with Cons.IH [of "setAccordionState j False pg"] show ?case
    by simp
qed

lemma accordion_load_collapsed:
  "expanded_triggers (accordion_load pg) = [] \<and> open_panels (accordion_load pg) = []"
proof -
  let ?js = "[0..<length (accordionTriggers pg)]"
  have load: "accordion_load pg = after_calls (collapse_calls ?js) pg"
    by (rule accordion_load_calls)
  have range: "\<forall>j \<in> set ?js. j < length (accordionTriggers pg)"
    by simp
  note facts = after_collapse [OF range]
  have "set (expanded_triggers (accordion_load pg)) = {}"
    using facts by (auto simp: load mem_expanded_triggers)
  moreover have "set (open_panels (accordion_load pg)) = {}"
    using facts by (auto simp: load mem_open_panels Bex_def)
  ultimately show ?thesis
    by simp
qed

lemma accordion_load_length:
  "length (accordionTriggers (accordion_load pg)) = length (accordionTriggers pg)"
proof -
  have "\<forall>j \<in> set [0..<length (accordionTriggers pg)]. j < length (accordionTriggers pg)"
    by simp
  from after_collapse [OF this] show ?thesis
    by (simp add: accordion_load_calls)
qed

lemma click_calls_in_range:
  "i < length (accordionTriggers pg) \<Longrightarrow>
   click_calls i pg =
     collapse_calls (others i pg)
     @ [(i, aria_expanded (accordionTriggers pg ! i) \<noteq> Some ''true'')]"
  by (simp add: click_calls_def others_def)

lemma accordion_click_in_range:
  "i < length (accordionTriggers pg) \<Longrightarrow>
   accordion_click i pg =
     setAccordionState i (aria_expanded (accordionTriggers pg ! i) \<noteq> Some ''true'')
       (after_calls (collapse_calls (others i pg)) pg)"
  by (simp add: accordion_click_def fold_collapse others_def)

lemma accordion_click_calls: "accordion_click i pg = after_calls (click_calls i pg) pg"
proof (cases "i < length (accordionTriggers pg)")
  case True
  then show ?thesis
    by (simp add: accordion_click_in_range click_calls_in_range after_calls_append)
next
  case False
  then show ?thesis
    by (simp add: accordion_click_def click_calls_def)
qed

lemma accordion_click_out_of_range:
  "\<not> i < length (accordionTriggers pg) \<Longrightarrow> accordion_click i pg = pg"
  by (simp add: accordion_click_def)

lemma others_range: "\<forall>j \<in> set (others i pg). j < length (accordionTriggers pg)"
  by (simp add: others_def)

lemma set_others: "set (others i pg) = {j. j < length (accordionTriggers pg) \<and> j \<noteq> i}"
  by (auto simp: others_def)

lemma accordion_click_triggers:
  assumes "i < length (accordionTriggers pg)" and "k < length (accordionTriggers pg)"
  shows "accordionTriggers (accordion_click i pg) ! k =
           (accordionTriggers pg ! k)
             \<lparr>aria_expanded :=
                Some (if k = i
                      then String_of_bool (aria_expanded (accordionTriggers pg ! i) \<noteq> Some ''true'')
                      else ''false'')\<rparr>"
proof -
  let ?pg1 = "after_calls (collapse_calls (others i pg)) pg"
  note facts = after_collapse [OF others_range, of i pg]
  have len: "length (accordionTriggers ?pg1) = length (accordionTriggers pg)"
    using facts by blast
  have trig: "accordionTriggers ?pg1 ! k =
      (if k \<in> set (others i pg) then (accordionTriggers pg ! k)\<lparr>aria_expanded := Some ''false''\<rparr>
       else accordionTriggers pg ! k)"
    using facts assms(2) by blast
  show ?thesis
    using assms len trig
    by (cases "k = i") (simp_all add: accordion_click_in_range setAccordionState_trigger set_others)
qed

lemma accordion_click_length [simp]:
  "length (accordionTriggers (accordion_click i pg)) = length (accordionTriggers pg)"
proof (cases "i < length (accordionTriggers pg)")
  case True
  with after_collapse [OF others_range, of i pg] show ?thesis
    by (simp add: accordion_click_in_range)
next
  case False
  then show ?thesis by (simp add: accordion_click_out_of_range)
qed

lemma accordion_click_sets:
  assumes "i < length (accordionTriggers pg)"
  shows "set (expanded_triggers (accordion_click i pg)) \<subseteq> {i}"
    and "set (open_panels (accordion_click i pg)) \<subseteq> {pid. controls pg i = Some pid}"
proof -
  let ?pg1 = "after_calls (collapse_calls (others i pg)) pg"
  let ?b = "aria_expanded (accordionTriggers pg ! i) \<noteq> Some ''true''"
  note facts = after_collapse [OF others_range, of i pg]
  have len: "length (accordionTriggers ?pg1) = length (accordionTriggers pg)"
    using facts by blast
  have ctl: "controls ?pg1 i = controls pg i"
    using facts assms by blast
  have exp1: "set (expanded_triggers ?pg1) \<subseteq> {i}"
    using facts by (auto simp: set_others mem_expanded_triggers)
  have open1: "set (open_panels ?pg1) \<subseteq> {pid. controls pg i = Some pid}"
  proof
    fix pid assume pid: "pid \<in> set (open_panels ?pg1)"
    then have "pid \<in> set (open_panels pg)"
      and none: "\<not> (\<exists>j \<in> set (others i pg). controls pg j = Some pid)"
      using facts by auto
    then obtain k where "k < length (accordionTriggers pg)" "controls pg k = Some pid"
      by (auto simp: mem_open_panels)
    with none have "k = i"
      by (auto simp: set_others)
    with \<open>controls pg k = Some pid\<close> show "pid \<in> {pid. controls pg i = Some pid}"
      by simp
  qed
  have "set (expanded_triggers (accordion_click i pg))
      \<subseteq> insert i (set (expanded_triggers ?pg1))"
    using assms len by (auto simp: accordion_click_in_range expanded_after_call)
  with exp1 show "set (expanded_triggers (accordion_click i pg)) \<subseteq> {i}"
    by auto
  have "set (open_panels (accordion_click i pg))
      \<subseteq> set (open_panels ?pg1) \<union> {pid. controls ?pg1 i = Some pid}"
    using assms len open_after_call [of i ?pg1 ?b] by (simp add: accordion_click_in_range)
  with open1 ctl show "set (open_panels (accordion_click i pg)) \<subseteq> {pid. controls pg i = Some pid}"
    by auto
qed

lemma accordion_click_at_most_one:
  assumes "i < length (accordionTriggers pg)"
  shows "at_most_one_open (accordion_click i pg)"
proof -
  have "length (expanded_triggers (accordion_click i pg)) \<le> 1"
    using accordion_click_sets(1) [OF assms]
    by (rule distinct_length_le_1 [OF distinct_expanded_triggers])
  moreover have "set (open_panels (accordion_click i pg)) \<subseteq> {the (controls pg i)}"
    using accordion_click_sets(2) [OF assms] by auto
  then have "length (open_panels (accordion_click i pg)) \<le> 1"
    by (rule distinct_length_le_1 [OF distinct_open_panels])
  ultimately show ?thesis
    by (simp add: at_most_one_open_def)
qed

lemma click_states_at_most_one:
  assumes "at_most_one_open pg" and "s \<in> set (call_states (click_calls i pg) pg)"
  shows "at_most_one_open s"
proof (cases "i < length (accordionTriggers pg)")
  case True
  let ?b = "aria_expanded (accordionTriggers pg ! i) \<noteq> Some ''true''"
  let ?pg1 = "after_calls (collapse_calls (others i pg)) pg"
  from assms(2) True have "s \<in> set (call_states (collapse_calls (others i pg)) pg)
      \<or> s = setAccordionState i ?b ?pg1"
    by (auto simp: click_calls_in_range call_states_append)
  then show ?thesis
  proof
    assume "s \<in> set (call_states (collapse_calls (others i pg)) pg)"
    from collapse_states [OF this] assms(1) show ?thesis
      by (blast intro: at_most_one_open_mono)
  next
    assume "s = setAccordionState i ?b ?pg1"
    then have "s = accordion_click i pg"
      using True by (simp add: accordion_click_in_range)
    then show ?thesis
      using accordion_click_at_most_one [OF True] by simp
  qed
next
  case False
  with assms(2) show ?thesis
    by (simp add: click_calls_def)
qed

lemma accordion_click_preserves:
  assumes "at_most_one_open pg"
  shows "at_most_one_open (accordion_click i pg)"
  using assms accordion_click_at_most_one [of i pg]
  by (cases "i < length (accordionTriggers pg)") (simp_all add: accordion_click_out_of_range)

lemma accordion_states_at_most_one:
  assumes "at_most_one_open pg" and "s \<in> set (accordion_states clicks pg)"
  shows "at_most_one_open s"
  using assms
proof (induction clicks arbitrary: pg)
  case Nil
  then show ?case by simp
next
  case (Cons i clicks)
  from Cons.prems(2) consider "s = pg" | "s \<in> set (call_states (click_calls i pg) pg)"
    | "s \<in> set (accordion_states clicks (accordion_click i pg))"
    by auto
  then show ?case
  proof cases
    case 1
    with Cons.prems(1) show ?thesis by simp
  next
    case 2
    show ?thesis by (rule click_states_at_most_one [OF Cons.prems(1) 2])
  next
    case 3
    with Cons.IH [OF accordion_click_preserves [OF Cons.prems(1)]] show ?thesis
      by simp
  qed
qed

lemma accordion_states_nonempty: "accordion_states clicks pg \<noteq> []"
  by (cases clicks) simp_all

lemma last_accordion_states:
  "last (accordion_states clicks pg) = fold accordion_click clicks pg"
  by (induction clicks arbitrary: pg) (simp_all add: accordion_states_nonempty)


lemma collapse_step_consistent:
  assumes "open_consistent pg"
  shows "open_consistent (setAccordionState j False pg)"
proof (cases "j < length (accordionTriggers pg)")
  case True
  show ?thesis
    unfolding open_consistent_def
  proof
    fix pid assume "pid \<in> set (open_panels (setAccordionState j False pg))"
    then have pid: "pid \<in> set (open_panels pg)" and notj: "controls pg j \<noteq> Some pid"
      using True by (simp_all add: open_after_collapse)
    from assms pid obtain k where k: "k \<in> set (expanded_triggers pg)" "controls pg k = Some pid"
      by (auto simp: open_consistent_def)
    with notj have "k \<noteq> j" by auto
    with k True have "k \<in> set (expanded_triggers (setAccordionState j False pg))"
      by (simp add: expanded_after_call)
    moreover have "controls (setAccordionState j False pg) k = Some pid"
      using k True by (simp add: setAccordionState_controls mem_expanded_triggers)
    ultimately show "\<exists>k \<in> set (expanded_triggers (setAccordionState j False pg)).
        controls (setAccordionState j False pg) k = Some pid"
      by blast
  qed
next
  case False
  with assms show ?thesis by (simp add: setAccordionState_out_of_range)
qed

lemma collapse_states_consistent:
  assumes "open_consistent pg" and "s \<in> set (call_states (collapse_calls js) pg)"
  shows "open_consistent s"
  using assms
proof (induction js arbitrary: pg)
  case Nil
  then show ?case by simp
next
  case (Cons j js)
  let ?pg' = "setAccordionState j False pg"
  have step: "open_consistent ?pg'"
    using Cons.prems(1) by (rule collapse_step_consistent)
  from Cons.prems(2) have "s = ?pg' \<or> s \<in> set (call_states (collapse_calls js) ?pg')"
    by simp
  then show ?case
    using step Cons.IH [OF step] by blast
qed

lemma accordion_click_consistent:
  assumes "i < length (accordionTriggers pg)"
  shows "open_consistent (accordion_click i pg)"
proof -
  let ?pg1 = "after_calls (collapse_calls (others i pg)) pg"
  let ?b = "aria_expanded (accordionTriggers pg ! i) \<noteq> Some ''true''"
  note facts = after_collapse [OF others_range, of i pg]
  have len: "length (accordionTriggers ?pg1) = length (accordionTriggers pg)"
    using facts by blast
  have ctl1: "controls ?pg1 i = controls pg i"
    using facts assms by blast
  have click: "accordion_click i pg = setAccordionState i ?b ?pg1"
    using assms by (rule accordion_click_in_range)
  have i1: "i < length (accordionTriggers ?pg1)"
    using assms len by simp
  show ?thesis
    unfolding open_consistent_def
  proof
    fix pid assume pid: "pid \<in> set (open_panels (accordion_click i pg))"
    with accordion_click_sets(2) [OF assms] have ctl: "controls pg i = Some pid"
      by auto
    have "?b"
    proof (rule ccontr)
      assume "\<not> ?b"
      then have "set (open_panels (accordion_click i pg))
          = set (open_panels ?pg1) - {pid. controls ?pg1 i = Some pid}"
        using open_after_collapse [OF i1] by (simp add: click)
      with pid ctl ctl1 show False by simp
    qed
    then have "i \<in> set (expanded_triggers (accordion_click i pg))"
      using expanded_after_call [OF i1, of ?b] by (simp add: click)
    moreover have "controls (accordion_click i pg) i = Some pid"
      using ctl ctl1 i1 by (simp add: click setAccordionState_controls)
    ultimately show "\<exists>k \<in> set (expanded_triggers (accordion_click i pg)).
        controls (accordion_click i pg) k = Some pid"
      by blast
  qed
qed

lemma click_states_consistent:
  assumes "open_consistent pg" and "s \<in> set (call_states (click_calls i pg) pg)"
  shows "open_consistent s"
proof (cases "i < length (accordionTriggers pg)")
  case True
  let ?b = "aria_expanded (accordionTriggers pg ! i) \<noteq> Some ''true''"
  let ?pg1 = "after_calls (collapse_calls (others i pg)) pg"
  from assms(2) True have "s \<in> set (call_states (collapse_calls (others i pg)) pg)
      \<or> s = setAccordionState i ?b ?pg1"
    by (auto simp: click_calls_in_range call_states_append)
  then show ?thesis
  proof
    assume "s \<in> set (call_states (collapse_calls (others i pg)) pg)"
    with assms(1) show ?thesis by (rule collapse_states_consistent)
  next
    assume "s = setAccordionState i ?b ?pg1"
    then have "s = accordion_click i pg"
      using True by (simp add: accordion_click_in_range)
    then show ?thesis
      using accordion_click_consistent [OF True] by simp
  qed
next
  case False
  with assms(2) show ?thesis
    by (simp add: click_calls_def)
qed

lemma accordion_states_consistent:
  assumes "open_consistent pg" and "s \<in> set (accordion_states clicks pg)"
  shows "open_consistent s"
  using assms
proof (induction clicks arbitrary: pg)
  case Nil
  then show ?case by simp
next
  case (Cons i clicks)
  have next_ok: "open_consistent (accordion_click i pg)"
    using Cons.prems(1) accordion_click_consistent [of i pg]
    by (cases "i < length (accordionTriggers pg)") (simp_all add: accordion_click_out_of_range)
  from Cons.prems(2) consider "s = pg" | "s \<in> set (call_states (click_calls i pg) pg)"
    | "s \<in> set (accordion_states clicks (accordion_click i pg))"
    by auto
  then show ?case
  proof cases
    case 1
    with Cons.prems(1) show ?thesis by simp
  next
    case 2
    show ?thesis by (rule click_states_consistent [OF Cons.prems(1) 2])
  next
    case 3
    show ?thesis by (rule Cons.IH [OF next_ok 3])
  qed
qed

text \<open>
  C2: the script starts with every trigger collapsed and no panel open. In every
  state that a sequence of trigger clicks passes through, the states between the
  calls of setAccordionState inside a click listener included, at most one trigger
  has aria-expanded "true" and at most one accordion panel (an element that a
  trigger controls) has a max-height other than "0px", and such a panel is the one
  the expanded trigger controls. A click on a trigger sets aria-expanded of every
  other trigger to "false" and toggles aria-expanded of the clicked one: its
  listener calls setAccordionState on all other triggers first and on the clicked
  trigger last.
\<close>

theorem C2_accordion_at_most_one:
  "expanded_triggers (accordion_load pg) = [] \<and> open_panels (accordion_load pg) = []
   \<and> (\<forall>s \<in> set (accordion_states clicks (accordion_load pg)).
         length (expanded_triggers s) \<le> 1 \<and> length (open_panels s) \<le> 1
         \<and> (\<forall>pid \<in> set (open_panels s).
               \<exists>k \<in> set (expanded_triggers s). controls s k = Some pid))
   \<and> last (accordion_states clicks (accordion_load pg))
       = fold accordion_click clicks (accordion_load pg)
   \<and> (\<forall>i k. i < length (accordionTriggers pg) \<and> k < length (accordionTriggers pg) \<longrightarrow>
         accordionTriggers (accordion_click i pg) ! k =
           (accordionTriggers pg ! k)
             \<lparr>aria_expanded :=
                Some (if k = i
                      then String_of_bool (aria_expanded (accordionTriggers pg ! i) \<noteq> Some ''true'')
                      else ''false'')\<rparr>)
   \<and> (\<forall>i. accordion_click i pg = last (pg # call_states (click_calls i pg) pg))"
proof -
  have calls: "\<forall>i. accordion_click i pg = last (pg # call_states (click_calls i pg) pg)"
    using accordion_click_calls [of _ pg] by (simp only: after_calls_def) blast
  have load: "expanded_triggers (accordion_load pg) = [] \<and> open_panels (accordion_load pg) = []"
    by (rule accordion_load_collapsed)
  then have start: "at_most_one_open (accordion_load pg)" "open_consistent (accordion_load pg)"
    by (simp_all add: at_most_one_open_def open_consistent_def)
  have trace: "length (expanded_triggers s) \<le> 1 \<and> length (open_panels s) \<le> 1
         \<and> (\<forall>pid \<in> set (open_panels s).
               \<exists>k \<in> set (expanded_triggers s). controls s k = Some pid)"
    if "s \<in> set (accordion_states clicks (accordion_load pg))" for s
    using accordion_states_at_most_one [OF start(1) that]
      accordion_states_consistent [OF start(2) that]
    by (simp add: at_most_one_open_def open_consistent_def)
  show ?thesis
    using load trace last_accordion_states accordion_click_triggers calls by blast
qed


theorem C2_accordion_at_most_one_witness:
  "length (expanded_triggers (fold accordion_click [0, 1] (accordion_load
      \<lparr>accordionTriggers =
         [\<lparr>trigger_id = ''t1'', aria_controls = Some ''p1'', aria_expanded = Some ''true''\<rparr>,
          \<lparr>trigger_id = ''t2'', aria_controls = Some ''p2'', aria_expanded = None\<rparr>],
       elementsById =
         [''p1'' \<mapsto> \<lparr>panel_aria_hidden = None, panel_maxHeight = [], panel_scrollHeight = 120\<rparr>,
          ''p2'' \<mapsto> \<lparr>panel_aria_hidden = None, panel_maxHeight = [], panel_scrollHeight = 80\<rparr>],
       openAccordionId = None\<rparr>))) \<le> 1
   \<and> expanded_triggers (fold accordion_click [0, 1] (accordion_load
      \<lparr>accordionTriggers =
         [\<lparr>trigger_id = ''t1'', aria_controls = Some ''p1'', aria_expanded = Some ''true''\<rparr>,
          \<lparr>trigger_id = ''t2'', aria_controls = Some ''p2'', aria_expanded = None\<rparr>],
       elementsById =
         [''p1'' \<mapsto> \<lparr>panel_aria_hidden = None, panel_maxHeight = [], panel_scrollHeight = 120\<rparr>,
          ''p2'' \<mapsto> \<lparr>panel_aria_hidden = None, panel_maxHeight = [], panel_scrollHeight = 80\<rparr>],
       openAccordionId = None\<rparr>)) = [1]
   \<and> open_panels (fold accordion_click [0, 1] (accordion_load
      \<lparr>accordionTriggers =
         [\<lparr>trigger_id = ''t1'', aria_controls = Some ''p1'', aria_expanded = Some ''true''\<rparr>,
          \<lparr>trigger_id = ''t2'', aria_controls = Some ''p2'', aria_expanded = None\<rparr>],
       elementsById =
         [''p1'' \<mapsto> \<lparr>panel_aria_hidden = None, panel_maxHeight = [], panel_scrollHeight = 120\<rparr>,
          ''p2'' \<mapsto> \<lparr>panel_aria_hidden = None, panel_maxHeight = [], panel_scrollHeight = 80\<rparr>],
       openAccordionId = None\<rparr>)) = [''p2'']
   \<and> map aria_expanded (accordionTriggers (accordion_click 1
      \<lparr>accordionTriggers =
         [\<lparr>trigger_id = ''t1'', aria_controls = Some ''p1'', aria_expanded = Some ''true''\<rparr>,
          \<lparr>trigger_id = ''t2'', aria_controls = Some ''p2'', aria_expanded = None\<rparr>],
       elementsById =
         [''p1'' \<mapsto> \<lparr>panel_aria_hidden = None, panel_maxHeight = [], panel_scrollHeight = 120\<rparr>,
          ''p2'' \<mapsto> \<lparr>panel_aria_hidden = None, panel_maxHeight = [], panel_scrollHeight = 80\<rparr>],
       openAccordionId = None\<rparr>)) = [Some ''false'', Some ''true'']"
proof -
  let ?pg = "\<lparr>accordionTriggers =
         [\<lparr>trigger_id = ''t1'', aria_controls = Some ''p1'', aria_expanded = Some ''true''\<rparr>,
          \<lparr>trigger_id = ''t2'', aria_controls = Some ''p2'', aria_expanded = None\<rparr>],
       elementsById =
         [''p1'' \<mapsto> \<lparr>panel_aria_hidden = None, panel_maxHeight = [], panel_scrollHeight = 120\<rparr>,
          ''p2'' \<mapsto> \<lparr>panel_aria_hidden = None, panel_maxHeight = [], panel_scrollHeight = 80\<rparr>],
       openAccordionId = None\<rparr>"
  note main = C2_accordion_at_most_one [of ?pg "[0, 1]"]
  have "last (accordion_states [0, 1] (accordion_load ?pg))
      \<in> set (accordion_states [0, 1] (accordion_load ?pg))"
    by (rule last_in_set [OF accordion_states_nonempty])
  then have final: "fold accordion_click [0, 1] (accordion_load ?pg)
      \<in> set (accordion_states [0, 1] (accordion_load ?pg))"
    using main by simp
  have one: "length (expanded_triggers (fold accordion_click [0, 1] (accordion_load ?pg))) \<le> 1"
    using main final by blast
  have expanded: "expanded_triggers (fold accordion_click [0, 1] (accordion_load ?pg)) = [1]"
    by code_simp
  have panels: "open_panels (fold accordion_click [0, 1] (accordion_load ?pg)) = [''p2'']"
    by code_simp
  have len: "length (accordionTriggers (accordion_click 1 ?pg)) = 2"
    by simp
  have t0: "aria_expanded (accordionTriggers (accordion_click 1 ?pg) ! 0) = Some ''false''"
    using main [THEN conjunct2, THEN conjunct2, THEN conjunct2, THEN conjunct2, THEN conjunct1,
        rule_format, of 1 0]
    by simp
  have t1: "aria_expanded (accordionTriggers (accordion_click 1 ?pg) ! 1) = Some ''true''"
    using main [THEN conjunct2, THEN conjunct2, THEN conjunct2, THEN conjunct2, THEN conjunct1,
        rule_format, of 1 1]
    by (simp add: String_of_bool_def)
  have "map aria_expanded (accordionTriggers (accordion_click 1 ?pg))
      = [aria_expanded (accordionTriggers (accordion_click 1 ?pg) ! 0),
         aria_expanded (accordionTriggers (accordion_click 1 ?pg) ! 1)]"
    using len by (rule map_of_length_2)
  also have "\<dots> = [Some ''false'', Some ''true'']"
    by (simp only: t0 t1)
  finally have triggers: "map aria_expanded (accordionTriggers (accordion_click 1 ?pg))
      = [Some ''false'', Some ''true'']" .
  show ?thesis
    by (intro conjI one expanded panels triggers)
qed

section \<open>Counter animation\<close>

lemma run_frames_again:
  "snd (step js env target start startTime t el) \<Longrightarrow>
   run_frames js env target start startTime (t # ts) el =
     (fst (step js env target start startTime t el)
        # fst (run_frames js env target start startTime ts (fst (step js env target start startTime t el))),
      snd (run_frames js env target start startTime ts (fst (step js env target start startTime t el))))"
  by (simp add: case_prod_beta)

lemma run_frames_done:
  "\<not> snd (step js env target start startTime t el) \<Longrightarrow>
   run_frames js env target start startTime (t # ts) el =
     ([fst (step js env target start startTime t el)], False)"
  by (simp add: case_prod_beta)

lemma step_again:
  "snd (step js env target start startTime t el) \<longleftrightarrow>
     num_less js (progress_at js startTime t) (num_of js 1) \<and> \<not> reducedMotion env"
  by (simp add: step_def Let_def)

lemma step_shown:
  "counter_textContent (fst (step js env target start startTime t el)) =
     (if num_less js (progress_at js startTime t) (num_of js 1) \<and> \<not> reducedMotion env
      then toLocaleString env
             (num_floor js
                (num_add js start
                   (num_mul js (num_sub js target start) (eased_at js (progress_at js startTime t)))))
      else toLocaleString env target)"
  by (simp add: step_def Let_def)

lemma step_dataset:
  "dataset_target (fst (step js env target start startTime t el)) = dataset_target el"
  by (simp add: step_def Let_def)

lemma run_frames_final:
  "\<not> snd (run_frames js env target start startTime ts el) \<Longrightarrow>
   fst (run_frames js env target start startTime ts el) \<noteq> []
   \<and> counter_textContent (last (fst (run_frames js env target start startTime ts el)))
       = toLocaleString env target"
proof (induction ts arbitrary: el)
  case Nil
  then show ?case by simp
next
  case (Cons t ts)
  show ?case
  proof (cases "snd (step js env target start startTime t el)")
    case True
    with Cons.prems Cons.IH [of "fst (step js env target start startTime t el)"] show ?thesis
      by (simp add: run_frames_again del: run_frames.simps)
  next
    case False
    then show ?thesis
      by (auto simp: run_frames_done step_shown step_again simp del: run_frames.simps)
  qed
qed

lemma run_frames_completes:
  "\<exists>t \<in> set ts. \<not> num_less js (progress_at js startTime t) (num_of js 1) \<Longrightarrow>
   \<not> snd (run_frames js env target start startTime ts el)"
proof (induction ts arbitrary: el)
  case Nil
  then show ?case by simp
next
  case (Cons t ts)
  show ?case
  proof (cases "snd (step js env target start startTime t el)")
    case True
    then have "num_less js (progress_at js startTime t) (num_of js 1)"
      by (simp add: step_again)
    with Cons.prems have "\<exists>t \<in> set ts. \<not> num_less js (progress_at js startTime t) (num_of js 1)"
      by simp
    from Cons.IH [OF this] True show ?thesis
      by (simp add: run_frames_again del: run_frames.simps)
  next
    case False
    then show ?thesis
      by (simp add: run_frames_done del: run_frames.simps)
  qed
qed

lemma run_frames_shown:
  assumes "\<not> reducedMotion env"
    and "k < length (fst (run_frames js env target start startTime ts el))"
  shows "k < length ts \<and>
     counter_textContent (fst (run_frames js env target start startTime ts el) ! k) =
       (if num_less js (progress_at js startTime (ts ! k)) (num_of js 1)
        then toLocaleString env
               (num_floor js
                  (num_add js start
                     (num_mul js (num_sub js target start)
                        (eased_at js (progress_at js startTime (ts ! k))))))
        else toLocaleString env target)"
  using assms(2)
proof (induction ts arbitrary: k el)
  case Nil
  then show ?case by simp
next
  case (Cons t ts)
  show ?case
  proof (cases "snd (step js env target start startTime t el)")
    case True
    note again = True
    show ?thesis
    proof (cases k)
      case 0
      then show ?thesis
        using assms(1) again
        by (simp add: run_frames_again step_shown step_again del: run_frames.simps)
    next
      case (Suc k')
      with Cons.prems again
      have "k' < length (fst (run_frames js env target start startTime ts
                (fst (step js env target start startTime t el))))"
        by (simp add: run_frames_again del: run_frames.simps)
      from Cons.IH [OF this] again Suc show ?thesis
        by (simp add: run_frames_again del: run_frames.simps)
    qed
  next
    case False
    with Cons.prems have "k = 0"
      by (simp add: run_frames_done del: run_frames.simps)
    with False assms(1) show ?thesis
      by (simp add: run_frames_done step_shown step_again del: run_frames.simps)
  qed
qed

lemma counter_target_attribute:
  "dataset_target el = Some s \<Longrightarrow> s \<noteq> [] \<Longrightarrow> counter_target js env el = toNumber env s"
  by (simp add: counter_target_def)

lemma counter_target_default:
  "dataset_target el = None \<or> dataset_target el = Some [] \<Longrightarrow>
   counter_target js env el = num_of js 0"
  by (auto simp: counter_target_def)

lemma animateCounter_reduced:
  "reducedMotion env \<Longrightarrow>
   animateCounter js env el =
     ([el\<lparr>counter_textContent := toLocaleString env (counter_target js env el)\<rparr>], False)"
  by (simp add: animateCounter_def)

lemma animateCounter_animated:
  "\<not> reducedMotion env \<Longrightarrow>
   animateCounter js env el =
     run_frames js env (counter_target js env el) (num_of js 0) (performance_now env) (frames env) el"
  by (simp add: animateCounter_def)


text \<open>
  C4: for a counter element whose data-target attribute denotes the number T, in
  any arithmetic. When the animation has finished (no frame callback is requested
  any more), the text shown last is T formatted by toLocaleString, whatever the
  floored values shown before were. The animation finishes at once under reduced
  motion, and otherwise with the first frame whose progress
  p = min((t - start) / 1600, 1) is not below 1. Without reduced motion a frame
  with progress below 1 shows floor(0 + (T - 0) * e(p)) formatted, which is
  floor(T * e(p)) whenever T - 0 = T and 0 + T * e(p) = T * e(p), where e(p) is
  2 * p * p for p below 0.5 and -1 + (4 - 2 * p) * p otherwise; the frame that
  ends the animation shows T formatted.
\<close>

theorem C4_counter_final_value:
  assumes "dataset_target el = Some s" and "s \<noteq> []"
  shows "(\<not> snd (animateCounter js env el) \<longrightarrow>
      fst (animateCounter js env el) \<noteq> []
      \<and> counter_textContent (last (fst (animateCounter js env el)))
          = toLocaleString env (toNumber env s))
   \<and> (reducedMotion env
        \<or> (\<exists>t \<in> set (frames env).
              \<not> num_less js (progress_at js (performance_now env) t) (num_of js 1)) \<longrightarrow>
        \<not> snd (animateCounter js env el))
   \<and> (reducedMotion env \<longrightarrow>
        animateCounter js env el =
          ([el\<lparr>counter_textContent := toLocaleString env (toNumber env s)\<rparr>], False))
   \<and> (\<not> reducedMotion env \<longrightarrow>
        (\<forall>k < length (fst (animateCounter js env el)).
           k < length (frames env)
           \<and> counter_textContent (fst (animateCounter js env el) ! k) =
               (if num_less js (progress_at js (performance_now env) (frames env ! k)) (num_of js 1)
                then toLocaleString env
                       (num_floor js
                          (num_add js (num_of js 0)
                             (num_mul js (num_sub js (toNumber env s) (num_of js 0))
                                (eased_at js (progress_at js (performance_now env) (frames env ! k))))))
                else toLocaleString env (toNumber env s))))
   \<and> (\<not> reducedMotion env \<longrightarrow>
        (\<forall>k < length (fst (animateCounter js env el)).
           num_less js (progress_at js (performance_now env) (frames env ! k)) (num_of js 1)
           \<and> num_sub js (toNumber env s) (num_of js 0) = toNumber env s
           \<and> num_add js (num_of js 0)
                 (num_mul js (toNumber env s)
                    (eased_at js (progress_at js (performance_now env) (frames env ! k))))
               = num_mul js (toNumber env s)
                   (eased_at js (progress_at js (performance_now env) (frames env ! k))) \<longrightarrow>
           counter_textContent (fst (animateCounter js env el) ! k) =
             toLocaleString env
               (num_floor js
                  (num_mul js (toNumber env s)
                     (eased_at js (progress_at js (performance_now env) (frames env ! k)))))))
   \<and> (\<forall>startTime t.
         progress_at js startTime t =
           num_min js (num_div js (num_sub js t startTime) (num_of js 1600)) (num_of js 1))
   \<and> (\<forall>p. eased_at js p =
          (if num_less js p (num_of js (1 / 2))
           then num_mul js (num_mul js (num_of js 2) p) p
           else num_add js (num_neg js (num_of js 1))
                  (num_mul js (num_sub js (num_of js 4) (num_mul js (num_of js 2) p)) p)))"
proof -
  have target: "counter_target js env el = toNumber env s"
    using assms by (rule counter_target_attribute)
  have final: "fst (animateCounter js env el) \<noteq> []
      \<and> counter_textContent (last (fst (animateCounter js env el)))
          = toLocaleString env (toNumber env s)"
    if "\<not> snd (animateCounter js env el)"
  proof (cases "reducedMotion env")
    case True
    then show ?thesis by (simp add: animateCounter_reduced target)
  next
    case False
    with that run_frames_final [of js env "toNumber env s" "num_of js 0" "performance_now env"
        "frames env" el]
    show ?thesis by (simp add: animateCounter_animated target)
  qed
  have completes: "\<not> snd (animateCounter js env el)"
    if "reducedMotion env
        \<or> (\<exists>t \<in> set (frames env).
              \<not> num_less js (progress_at js (performance_now env) t) (num_of js 1))"
  proof (cases "reducedMotion env")
    case True
    then show ?thesis by (simp add: animateCounter_reduced)
  next
    case False
    with that have "\<exists>t \<in> set (frames env).
        \<not> num_less js (progress_at js (performance_now env) t) (num_of js 1)"
      by simp
    from run_frames_completes [OF this] False show ?thesis
      by (simp add: animateCounter_animated)
  qed
  have reduced: "animateCounter js env el =
          ([el\<lparr>counter_textContent := toLocaleString env (toNumber env s)\<rparr>], False)"
    if "reducedMotion env"
    using that by (simp add: animateCounter_reduced target)
  have shown: "k < length (frames env)
           \<and> counter_textContent (fst (animateCounter js env el) ! k) =
               (if num_less js (progress_at js (performance_now env) (frames env ! k)) (num_of js 1)
                then toLocaleString env
                       (num_floor js
                          (num_add js (num_of js 0)
                             (num_mul js (num_sub js (toNumber env s) (num_of js 0))
                                (eased_at js (progress_at js (performance_now env) (frames env ! k))))))
                else toLocaleString env (toNumber env s))"
    if "\<not> reducedMotion env" and "k < length (fst (animateCounter js env el))" for k
    using run_frames_shown [OF that(1), of k js "toNumber env s" "num_of js 0" "performance_now env"
        "frames env" el] that
    by (simp add: animateCounter_animated target)
  have plain: "counter_textContent (fst (animateCounter js env el) ! k) =
             toLocaleString env
               (num_floor js
                  (num_mul js (toNumber env s)
                     (eased_at js (progress_at js (performance_now env) (frames env ! k)))))"
    if "\<not> reducedMotion env" and "k < length (fst (animateCounter js env el))"
      and "num_less js (progress_at js (performance_now env) (frames env ! k)) (num_of js 1)"
      and "num_sub js (toNumber env s) (num_of js 0) = toNumber env s"
      and "num_add js (num_of js 0)
                 (num_mul js (toNumber env s)
                    (eased_at js (progress_at js (performance_now env) (frames env ! k))))
               = num_mul js (toNumber env s)
                   (eased_at js (progress_at js (performance_now env) (frames env ! k)))"
    for k
    using shown [OF that(1,2)] that(3-5) by simp
  have curve: "\<forall>p. eased_at js p =
          (if num_less js p (num_of js (1 / 2))
           then num_mul js (num_mul js (num_of js 2) p) p
           else num_add js (num_neg js (num_of js 1))
                  (num_mul js (num_sub js (num_of js 4) (num_mul js (num_of js 2) p)) p))"
    by (simp add: eased_at_def)
  have progress: "\<forall>startTime t.
         progress_at js startTime t =
           num_min js (num_div js (num_sub js t startTime) (num_of js 1600)) (num_of js 1)"
    by (simp add: progress_at_def duration_def)
  show ?thesis
    by (intro conjI impI allI)
      (use final completes reduced shown plain curve progress in \<open>blast+\<close>)
qed


theorem C4_counter_final_value_witness:
  "\<not> snd (animateCounter exact_numbers
       \<lparr>toLocaleString = (\<lambda>v. String_of_nat (nat \<lfloor>v\<rfloor>)), toNumber = (\<lambda>s. 100 :: real),
        reducedMotion = False, performance_now = 0, frames = [400, 1200, 1600]\<rparr>
       \<lparr>counter_textContent = ''0'', dataset_target = Some ''100''\<rparr>)
   \<and> counter_textContent (last (fst (animateCounter exact_numbers
       \<lparr>toLocaleString = (\<lambda>v. String_of_nat (nat \<lfloor>v\<rfloor>)), toNumber = (\<lambda>s. 100 :: real),
        reducedMotion = False, performance_now = 0, frames = [400, 1200, 1600]\<rparr>
       \<lparr>counter_textContent = ''0'', dataset_target = Some ''100''\<rparr>))) = ''100''
   \<and> counter_textContent (fst (animateCounter exact_numbers
       \<lparr>toLocaleString = (\<lambda>v. String_of_nat (nat \<lfloor>v\<rfloor>)), toNumber = (\<lambda>s. 100 :: real),
        reducedMotion = False, performance_now = 0, frames = [400, 1200, 1600]\<rparr>
       \<lparr>counter_textContent = ''0'', dataset_target = Some ''100''\<rparr>) ! 0) = ''12''
   \<and> map counter_textContent (fst (animateCounter exact_numbers
       \<lparr>toLocaleString = (\<lambda>v. String_of_nat (nat \<lfloor>v\<rfloor>)), toNumber = (\<lambda>s. 100 :: real),
        reducedMotion = False, performance_now = 0, frames = [400, 1200, 1600]\<rparr>
       \<lparr>counter_textContent = ''0'', dataset_target = Some ''100''\<rparr>)) = [''12'', ''87'', ''100'']"
proof -
  let ?env = "\<lparr>toLocaleString = (\<lambda>v. String_of_nat (nat \<lfloor>v\<rfloor>)), toNumber = (\<lambda>s. 100 :: real),
        reducedMotion = False, performance_now = 0, frames = [400, 1200, 1600]\<rparr>"
  let ?el = "\<lparr>counter_textContent = ''0'', dataset_target = Some ''100''\<rparr>"
  have attribute: "dataset_target ?el = Some ''100''" "''100'' \<noteq> []"
    by simp_all
  note main = C4_counter_final_value [OF attribute, of exact_numbers ?env]
  have finished: "\<not> snd (animateCounter exact_numbers ?env ?el)"
    using main [THEN conjunct2, THEN conjunct1]
    by (simp add: progress_at_def duration_def exact_numbers_def)
  have "counter_textContent (last (fst (animateCounter exact_numbers ?env ?el)))
      = toLocaleString ?env (toNumber ?env ''100'')"
    by (rule main [THEN conjunct1, rule_format, OF finished, THEN conjunct2])
  also have "\<dots> = ''100''"
    by (simp add: String_of_nat.simps digit_char_def)
  finally have final:
    "counter_textContent (last (fst (animateCounter exact_numbers ?env ?el))) = ''100''" .
  have texts: "map counter_textContent (fst (animateCounter exact_numbers ?env ?el))
      = [''12'', ''87'', ''100'']"
    by (simp add: animateCounter_def counter_target_def step_def progress_at_def eased_at_def
          duration_def exact_numbers_def String_of_nat.simps digit_char_def)
  have "length (map counter_textContent (fst (animateCounter exact_numbers ?env ?el))) = 3"
    by (simp only: texts list.size)
  then have len: "0 < length (fst (animateCounter exact_numbers ?env ?el))"
    by simp
  have animated: "\<not> reducedMotion ?env"
    by simp
  have early: "num_less exact_numbers
        (progress_at exact_numbers (performance_now ?env) (frames ?env ! 0))
        (num_of exact_numbers 1)
      \<and> num_sub exact_numbers (toNumber ?env ''100'') (num_of exact_numbers 0)
          = toNumber ?env ''100''
      \<and> num_add exact_numbers (num_of exact_numbers 0)
            (num_mul exact_numbers (toNumber ?env ''100'')
               (eased_at exact_numbers
                  (progress_at exact_numbers (performance_now ?env) (frames ?env ! 0))))
          = num_mul exact_numbers (toNumber ?env ''100'')
              (eased_at exact_numbers
                 (progress_at exact_numbers (performance_now ?env) (frames ?env ! 0)))"
    by (simp add: progress_at_def duration_def exact_numbers_def)
  have "counter_textContent (fst (animateCounter exact_numbers ?env ?el) ! 0) =
      toLocaleString ?env
        (num_floor exact_numbers
           (num_mul exact_numbers (toNumber ?env ''100'')
              (eased_at exact_numbers
                 (progress_at exact_numbers (performance_now ?env) (frames ?env ! 0)))))"
    by (rule main [THEN conjunct2, THEN conjunct2, THEN conjunct2, THEN conjunct2,
          THEN conjunct1, rule_format, OF animated len early])
  also have "\<dots> = ''12''"
    by (simp add: progress_at_def eased_at_def duration_def exact_numbers_def
          String_of_nat.simps digit_char_def)
  finally have first:
    "counter_textContent (fst (animateCounter exact_numbers ?env ?el) ! 0) = ''12''" .
  show ?thesis
    by (intro conjI finished final first texts)
qed

section \<open>Lightbox\<close>

text \<open>
  C6, as the claim states it, fails for a focused element that is no HTMLElement,
  a link inside an SVG image for instance: hideLightbox calls focus only on an
  HTMLElement, so the focus is not back on that element after closing.
\<close>

theorem C6_svg_focus_counterexample:
  "activeElement \<lparr>lightbox = Some \<lparr>lightbox_aria_hidden = Some ''true''\<rparr>,
        lightboxImage = Some \<lparr>image_src = [], image_alt = []\<rparr>,
        lightboxCaption = Some [], lightboxClose = Some 2,
        lastFocusedElement = None, activeElement = Some 1, body_overflow = [],
        isHTMLElement = (\<lambda>e. e \<noteq> 1), focusable = (\<lambda>e. True)\<rparr> = Some 1
   \<and> activeElement (hideLightbox (openLightbox
        \<lparr>img_src = ''a.svg'', img_alt = ''A'', img_dataset_lightbox = Some ''Caption''\<rparr>
        \<lparr>lightbox = Some \<lparr>lightbox_aria_hidden = Some ''true''\<rparr>,
        lightboxImage = Some \<lparr>image_src = [], image_alt = []\<rparr>,
        lightboxCaption = Some [], lightboxClose = Some 2,
        lastFocusedElement = None, activeElement = Some 1, body_overflow = [],
        isHTMLElement = (\<lambda>e. e \<noteq> 1), focusable = (\<lambda>e. True)\<rparr>)) \<noteq> Some 1"
  by (simp add: hideLightbox_def openLightbox_def focus_def)

text \<open>
  C6 (amended): on a page that has the lightbox, its image and its caption, for
  every HTMLElement E that has the focus immediately before the lightbox is opened,
  opening the lightbox (which records E, shows the overlay, locks the scrolling of
  the body and moves the focus to the close control when there is one that can take
  it) and then closing it puts the focus back on exactly E, sets aria-hidden back
  to "true", clears src and alt of the lightbox image and removes the overflow lock
  of the body.
\<close>

theorem C6_lightbox_round_trip:
  assumes "lightbox pg = Some box" and "lightboxImage pg = Some picture"
    and "lightboxCaption pg = Some caption"
    and "activeElement pg = Some e" and "focusable pg e" and "isHTMLElement pg e"
  shows "activeElement (hideLightbox (openLightbox img pg)) = Some e
     \<and> map_option lightbox_aria_hidden (lightbox (hideLightbox (openLightbox img pg)))
         = Some (Some ''true'')
     \<and> lightboxImage (hideLightbox (openLightbox img pg))
         = Some (picture\<lparr>image_src := [], image_alt := []\<rparr>)
     \<and> body_overflow (hideLightbox (openLightbox img pg)) = []
     \<and> lastFocusedElement (openLightbox img pg) = Some e
     \<and> map_option lightbox_aria_hidden (lightbox (openLightbox img pg)) = Some (Some ''false'')
     \<and> lightboxImage (openLightbox img pg)
         = Some (picture\<lparr>image_src := img_src img, image_alt := img_alt img\<rparr>)
     \<and> body_overflow (openLightbox img pg) = ''hidden''
     \<and> (\<forall>c. lightboxClose pg = Some c \<and> focusable pg c \<longrightarrow>
            activeElement (openLightbox img pg) = Some c)"
  using assms
  by (auto simp: hideLightbox_def openLightbox_def focus_def Let_def split: option.splits)

theorem C6_lightbox_round_trip_witness:
  "activeElement (hideLightbox (openLightbox
        \<lparr>img_src = ''a.svg'', img_alt = ''A'', img_dataset_lightbox = Some ''Caption''\<rparr>
        \<lparr>lightbox = Some \<lparr>lightbox_aria_hidden = Some ''true''\<rparr>,
         lightboxImage = Some \<lparr>image_src = [], image_alt = []\<rparr>,
         lightboxCaption = Some [], lightboxClose = Some 2,
         lastFocusedElement = None, activeElement = Some 1, body_overflow = [],
         isHTMLElement = (\<lambda>e. True), focusable = (\<lambda>e. True)\<rparr>)) = Some 1
   \<and> activeElement (openLightbox
        \<lparr>img_src = ''a.svg'', img_alt = ''A'', img_dataset_lightbox = Some ''Caption''\<rparr>
        \<lparr>lightbox = Some \<lparr>lightbox_aria_hidden = Some ''true''\<rparr>,
         lightboxImage = Some \<lparr>image_src = [], image_alt = []\<rparr>,
         lightboxCaption = Some [], lightboxClose = Some 2,
         lastFocusedElement = None, activeElement = Some 1, body_overflow = [],
         isHTMLElement = (\<lambda>e. True), focusable = (\<lambda>e. True)\<rparr>) = Some 2
   \<and> body_overflow (hideLightbox (openLightbox
        \<lparr>img_src = ''a.svg'', img_alt = ''A'', img_dataset_lightbox = Some ''Caption''\<rparr>
        \<lparr>lightbox = Some \<lparr>lightbox_aria_hidden = Some ''true''\<rparr>,
         lightboxImage = Some \<lparr>image_src = [], image_alt = []\<rparr>,
         lightboxCaption = Some [], lightboxClose = Some 2,
         lastFocusedElement = None, activeElement = Some 1, body_overflow = [],
         isHTMLElement = (\<lambda>e. True), focusable = (\<lambda>e. True)\<rparr>)) = []"
  using C6_lightbox_round_trip [of
        "\<lparr>lightbox = Some \<lparr>lightbox_aria_hidden = Some ''true''\<rparr>,
         lightboxImage = Some \<lparr>image_src = [], image_alt = []\<rparr>,
         lightboxCaption = Some [], lightboxClose = Some 2,
         lastFocusedElement = None, activeElement = Some 1, body_overflow = [],
         isHTMLElement = (\<lambda>e. True), focusable = (\<lambda>e. True)\<rparr>"
        "\<lparr>lightbox_aria_hidden = Some ''true''\<rparr>" "\<lparr>image_src = [], image_alt = []\<rparr>" "[]" 1
        "\<lparr>img_src = ''a.svg'', img_alt = ''A'', img_dataset_lightbox = Some ''Caption''\<rparr>"]
  by simp


section \<open>Contact form\<close>

lemma setFieldError_slot:
  "setFieldError field message = field\<lparr>field_error := map_option (\<lambda>_. message) (field_error field)\<rparr>"
  by (cases "field_error field") (simp_all add: setFieldError_def)

lemma validateField_frame:
  "field_name (fst (validateField field)) = field_name field"
  "field_value (fst (validateField field)) = field_value field"
  "field_defaultValue (fst (validateField field)) = field_defaultValue field"
  by (simp_all add: validateField_def setFieldError_slot)

lemma validateField_valid:
  "valid field \<Longrightarrow> validateField field = (setFieldError field [], True)"
  by (simp add: validateField_def)

lemma validateField_missing:
  "valueMissing field \<Longrightarrow>
   validateField field = (setFieldError field ''This field is required.'', False)"
  by (simp add: validateField_def valid_def)

lemma find_validated:
  "map_option field_value
     (find (\<lambda>field. field_name field = n) (map (\<lambda>field. fst (validateField field)) inputs))
   = map_option field_value (find (\<lambda>field. field_name field = n) inputs)"
  by (induction inputs) (simp_all add: validateField_frame)

lemma named_value_validated:
  "named_value (form\<lparr>form_fields := map (\<lambda>field. fst (validateField field)) (form_fields form)\<rparr>) n
   = named_value form n"
  by (simp add: named_value_def find_validated)

lemma submit_invalid:
  assumes "\<not> list_all (\<lambda>field. snd (validateField field)) (form_fields form)"
  shows "submit env form =
     \<lparr>after_form = form\<lparr>form_fields := map (\<lambda>field. fst (validateField field)) (form_fields form)\<rparr>,
      effects = [PreventDefault], raised = None\<rparr>"
  using assms by (simp add: submit_def validate_all_def)

lemma submit_valid:
  assumes "list_all valid (form_fields form)"
    and "named_value form ''name'' = Some n" and "named_value form ''email'' = Some e"
    and "named_value form ''message'' = Some m"
  shows "submit env form =
     \<lparr>after_form =
        report (fst (settle env))
          (case form_status form of
             None \<Rightarrow> form\<lparr>form_fields := map (\<lambda>field. setFieldError field []) (form_fields form)\<rparr>
           | Some _ \<Rightarrow>
               form\<lparr>form_fields := map (\<lambda>field. setFieldError field []) (form_fields form),
                     form_status := Some sending_notice\<rparr>),
      effects = [PreventDefault, SetTimeout 1500,
                 Fetch \<lparr>request_url = ''/api/contact'', request_method = ''POST'',
                        request_content_type = ''application/json'',
                        body_name = trim env n, body_email = trim env e, body_message = trim env m\<rparr>]
                @ snd (settle env),
      raised = None\<rparr>"
proof -
  have fields1: "map (\<lambda>field. fst (validateField field)) (form_fields form)
      = map (\<lambda>field. setFieldError field []) (form_fields form)"
    using assms(1) by (simp add: list_all_iff validateField_valid)
  have isValid: "list_all (\<lambda>field. snd (validateField field)) (form_fields form)"
    using assms(1) by (simp add: list_all_iff validateField_valid)
  have named: "named_value (form\<lparr>form_fields := map (\<lambda>field. setFieldError field []) (form_fields form)\<rparr>) k
      = named_value form k" for k
    using named_value_validated [of form k] by (simp add: fields1)
  show ?thesis
    using isValid assms(2-4)
    by (cases "form_status form")
      (simp_all add: submit_def validate_all_def fields1 named case_prod_beta)
qed

text \<open>
  C5: when the contact form is submitted with a required field left empty (the name
  field, or any other field of the form), the error slot of that field reads
  exactly "This field is required.", the listener returns after the validation
  without issuing a request to /api/contact, and values and status stay as they
  were.
\<close>

theorem C5_required_field_blocks_submit:
  assumes "i < length (form_fields form)"
    and "field_required (form_fields form ! i)" and "field_value (form_fields form ! i) = []"
  shows "effects (submit env form) = [PreventDefault]
     \<and> (\<forall>r. Fetch r \<notin> set (effects (submit env form)))
     \<and> raised (submit env form) = None
     \<and> form_status (after_form (submit env form)) = form_status form
     \<and> length (form_fields (after_form (submit env form))) = length (form_fields form)
     \<and> field_error (form_fields (after_form (submit env form)) ! i)
         = map_option (\<lambda>_. ''This field is required.'') (field_error (form_fields form ! i))
     \<and> map field_value (form_fields (after_form (submit env form)))
         = map field_value (form_fields form)"
proof -
  have missing: "valueMissing (form_fields form ! i)"
    using assms(2,3) by (simp add: valueMissing_def)
  then have "\<not> snd (validateField (form_fields form ! i))"
    by (simp add: validateField_missing)
  then have "\<not> list_all (\<lambda>field. snd (validateField field)) (form_fields form)"
    using assms(1) by (auto simp: list_all_length)
  note result = submit_invalid [OF this, of env]
  have slot: "field_error (fst (validateField (form_fields form ! i)))
      = map_option (\<lambda>_. ''This field is required.'') (field_error (form_fields form ! i))"
    using missing by (simp add: validateField_missing setFieldError_slot)
  show ?thesis
    using assms(1) slot by (simp add: result validateField_frame comp_def)
qed

text \<open>
  C3, as the claim states it, fails for a form without status region: the request
  is aborted, the draw 0.9 exceeds 0.3, so the outcome is success, and yet the
  fields keep their values, because the reset sits inside the guard on the status
  element.
\<close>

theorem C3_status_guard_counterexample:
  "map field_value (form_fields (after_form (submit
      \<lparr>fetch_outcome = Aborted, random_draw = 9 / 10, trim = (\<lambda>v. v)\<rparr>
      \<lparr>form_status = None,
       form_fields = [\<lparr>field_name = ''name'', field_value = ''Ada'', field_defaultValue = [],
                        field_required = True, field_typeMismatch = (\<lambda>v. False),
                        field_otherInvalid = (\<lambda>v. False), field_error = Some []\<rparr>,
                      \<lparr>field_name = ''email'', field_value = ''ada@example.org'',
                        field_defaultValue = [],
                        field_required = True, field_typeMismatch = (\<lambda>v. False),
                        field_otherInvalid = (\<lambda>v. False), field_error = Some []\<rparr>,
                      \<lparr>field_name = ''message'', field_value = ''Hello'', field_defaultValue = [],
                        field_required = True, field_typeMismatch = (\<lambda>v. False),
                        field_otherInvalid = (\<lambda>v. False), field_error = Some []\<rparr>]\<rparr>)))
   = [''Ada'', ''ada@example.org'', ''Hello'']
   \<and> effects (submit
      \<lparr>fetch_outcome = Aborted, random_draw = 9 / 10, trim = (\<lambda>v. v)\<rparr>
      \<lparr>form_status = None,
       form_fields = [\<lparr>field_name = ''name'', field_value = ''Ada'', field_defaultValue = [],
                        field_required = True, field_typeMismatch = (\<lambda>v. False),
                        field_otherInvalid = (\<lambda>v. False), field_error = Some []\<rparr>,
                      \<lparr>field_name = ''email'', field_value = ''ada@example.org'',
                        field_defaultValue = [],
                        field_required = True, field_typeMismatch = (\<lambda>v. False),
                        field_otherInvalid = (\<lambda>v. False), field_error = Some []\<rparr>,
                      \<lparr>field_name = ''message'', field_value = ''Hello'', field_defaultValue = [],
                        field_required = True, field_typeMismatch = (\<lambda>v. False),
                        field_otherInvalid = (\<lambda>v. False), field_error = Some []\<rparr>]\<rparr>)
   = [PreventDefault, SetTimeout 1500,
      Fetch \<lparr>request_url = ''/api/contact'', request_method = ''POST'',
             request_content_type = ''application/json'',
             body_name = ''Ada'', body_email = ''ada@example.org'', body_message = ''Hello''\<rparr>,
      ClearTimeout, Delay 600, MathRandom]"
  by (simp add: submit_def validate_all_def validateField_def valid_def valueMissing_def
        typeMismatch_def setFieldError_def named_value_def settle_def report_def)

text \<open>
  C3 (amended): when the form is valid and has a status region, and the request to
  /api/contact fails or is aborted by the timer of 1500 ms, the listener clears the
  timer, waits 600 ms and draws a random number; the outcome is success exactly
  when the draw exceeds 0.3. On success the status region shows the success
  message, every field is reset to its default value and every error slot is
  cleared; on failure the status region shows the generic failure message and the
  entered values are left intact.
\<close>

theorem C3_fallback_after_failed_fetch:
  assumes "fetch_outcome env = NetworkError \<or> fetch_outcome env = Aborted"
    and "list_all valid (form_fields form)"
    and "named_value form ''name'' = Some n" and "named_value form ''email'' = Some e"
    and "named_value form ''message'' = Some m"
    and "form_status form = Some status"
  shows "effects (submit env form) =
       [PreventDefault, SetTimeout 1500,
        Fetch \<lparr>request_url = ''/api/contact'', request_method = ''POST'',
               request_content_type = ''application/json'',
               body_name = trim env n, body_email = trim env e, body_message = trim env m\<rparr>,
        ClearTimeout, Delay 600, MathRandom]
     \<and> raised (submit env form) = None
     \<and> (random_draw env > 3 / 10 \<longrightarrow>
          form_status (after_form (submit env form)) = Some success_message
          \<and> form_fields (after_form (submit env form)) =
              map (\<lambda>field. field\<lparr>field_value := field_defaultValue field,
                                 field_error := map_option (\<lambda>_. []) (field_error field)\<rparr>)
                (form_fields form))
     \<and> (\<not> random_draw env > 3 / 10 \<longrightarrow>
          form_status (after_form (submit env form)) = Some failure_message
          \<and> map field_value (form_fields (after_form (submit env form)))
              = map field_value (form_fields form)
          \<and> form_fields (after_form (submit env form)) =
              map (\<lambda>field. field\<lparr>field_error := map_option (\<lambda>_. []) (field_error field)\<rparr>)
                (form_fields form))"
proof -
  have settle: "settle env = (random_draw env > 3 / 10, [ClearTimeout, Delay 600, MathRandom])"
    using assms(1) by (auto simp: settle_def)
  note result = submit_valid [OF assms(2-5), of env]
  show ?thesis
    using assms(6)
    by (simp add: result settle report_def setFieldError_slot reset_def comp_def option.map_comp)
qed


theorem C5_required_field_blocks_submit_witness:
  "effects (submit \<lparr>fetch_outcome = Aborted, random_draw = 1 / 2, trim = (\<lambda>v. v)\<rparr>
      \<lparr>form_status = Some [],
       form_fields = [\<lparr>field_name = ''name'', field_value = [], field_defaultValue = [],
                        field_required = True, field_typeMismatch = (\<lambda>v. False),
                        field_otherInvalid = (\<lambda>v. False), field_error = Some []\<rparr>,
                      \<lparr>field_name = ''email'', field_value = ''ada@example.org'',
                        field_defaultValue = [],
                        field_required = True, field_typeMismatch = (\<lambda>v. False),
                        field_otherInvalid = (\<lambda>v. False), field_error = Some ''old''\<rparr>]\<rparr>) = [PreventDefault]
   \<and> field_error (form_fields (after_form (submit \<lparr>fetch_outcome = Aborted, random_draw = 1 / 2, trim = (\<lambda>v. v)\<rparr>
      \<lparr>form_status = Some [],
       form_fields = [\<lparr>field_name = ''name'', field_value = [], field_defaultValue = [],
                        field_required = True, field_typeMismatch = (\<lambda>v. False),
                        field_otherInvalid = (\<lambda>v. False), field_error = Some []\<rparr>,
                      \<lparr>field_name = ''email'', field_value = ''ada@example.org'',
                        field_defaultValue = [],
                        field_required = True, field_typeMismatch = (\<lambda>v. False),
                        field_otherInvalid = (\<lambda>v. False), field_error = Some ''old''\<rparr>]\<rparr>)) ! 0) = Some ''This field is required.''"
  using C5_required_field_blocks_submit [of 0
      "\<lparr>form_status = Some [],
       form_fields = [\<lparr>field_name = ''name'', field_value = [], field_defaultValue = [],
                        field_required = True, field_typeMismatch = (\<lambda>v. False),
                        field_otherInvalid = (\<lambda>v. False), field_error = Some []\<rparr>,
                      \<lparr>field_name = ''email'', field_value = ''ada@example.org'',
                        field_defaultValue = [],
                        field_required = True, field_typeMismatch = (\<lambda>v. False),
                        field_otherInvalid = (\<lambda>v. False), field_error = Some ''old''\<rparr>]\<rparr>"
      "\<lparr>fetch_outcome = Aborted, random_draw = 1 / 2, trim = (\<lambda>v. v)\<rparr>"]
  by simp

theorem C3_fallback_after_failed_fetch_witness:
  "form_status (after_form (submit \<lparr>fetch_outcome = Aborted, random_draw = 1 / 2, trim = (\<lambda>v. v)\<rparr>
      \<lparr>form_status = Some [],
       form_fields = [\<lparr>field_name = ''name'', field_value = ''Ada'', field_defaultValue = [],
                        field_required = True, field_typeMismatch = (\<lambda>v. False),
                        field_otherInvalid = (\<lambda>v. False), field_error = Some ''old''\<rparr>,
                      \<lparr>field_name = ''email'', field_value = ''ada@example.org'',
                        field_defaultValue = [],
                        field_required = True, field_typeMismatch = (\<lambda>v. False),
                        field_otherInvalid = (\<lambda>v. False), field_error = Some []\<rparr>,
                      \<lparr>field_name = ''message'', field_value = ''Hello'', field_defaultValue = [],
                        field_required = False, field_typeMismatch = (\<lambda>v. False),
                        field_otherInvalid = (\<lambda>v. False), field_error = None\<rparr>]\<rparr>)) = Some success_message
   \<and> map field_value (form_fields (after_form (submit \<lparr>fetch_outcome = Aborted, random_draw = 1 / 2, trim = (\<lambda>v. v)\<rparr>
      \<lparr>form_status = Some [],
       form_fields = [\<lparr>field_name = ''name'', field_value = ''Ada'', field_defaultValue = [],
                        field_required = True, field_typeMismatch = (\<lambda>v. False),
                        field_otherInvalid = (\<lambda>v. False), field_error = Some ''old''\<rparr>,
                      \<lparr>field_name = ''email'', field_value = ''ada@example.org'',
                        field_defaultValue = [],
                        field_required = True, field_typeMismatch = (\<lambda>v. False),
                        field_otherInvalid = (\<lambda>v. False), field_error = Some []\<rparr>,
                      \<lparr>field_name = ''message'', field_value = ''Hello'', field_defaultValue = [],
                        field_required = False, field_typeMismatch = (\<lambda>v. False),
                        field_otherInvalid = (\<lambda>v. False), field_error = None\<rparr>]\<rparr>))) = [[], [], []]
   \<and> map field_error (form_fields (after_form (submit \<lparr>fetch_outcome = Aborted, random_draw = 1 / 2, trim = (\<lambda>v. v)\<rparr>
      \<lparr>form_status = Some [],
       form_fields = [\<lparr>field_name = ''name'', field_value = ''Ada'', field_defaultValue = [],
                        field_required = True, field_typeMismatch = (\<lambda>v. False),
                        field_otherInvalid = (\<lambda>v. False), field_error = Some ''old''\<rparr>,
                      \<lparr>field_name = ''email'', field_value = ''ada@example.org'',
                        field_defaultValue = [],
                        field_required = True, field_typeMismatch = (\<lambda>v. False),
                        field_otherInvalid = (\<lambda>v. False), field_error = Some []\<rparr>,
                      \<lparr>field_name = ''message'', field_value = ''Hello'', field_defaultValue = [],
                        field_required = False, field_typeMismatch = (\<lambda>v. False),
                        field_otherInvalid = (\<lambda>v. False), field_error = None\<rparr>]\<rparr>))) = [Some [], Some [], None]
   \<and> form_status (after_form (submit \<lparr>fetch_outcome = NetworkError, random_draw = 3 / 10, trim = (\<lambda>v. v)\<rparr>
      \<lparr>form_status = Some [],
       form_fields = [\<lparr>field_name = ''name'', field_value = ''Ada'', field_defaultValue = [],
                        field_required = True, field_typeMismatch = (\<lambda>v. False),
                        field_otherInvalid = (\<lambda>v. False), field_error = Some ''old''\<rparr>,
                      \<lparr>field_name = ''email'', field_value = ''ada@example.org'',
                        field_defaultValue = [],
                        field_required = True, field_typeMismatch = (\<lambda>v. False),
                        field_otherInvalid = (\<lambda>v. False), field_error = Some []\<rparr>,
                      \<lparr>field_name = ''message'', field_value = ''Hello'', field_defaultValue = [],
                        field_required = False, field_typeMismatch = (\<lambda>v. False),
                        field_otherInvalid = (\<lambda>v. False), field_error = None\<rparr>]\<rparr>)) = Some failure_message
   \<and> map field_value (form_fields (after_form (submit \<lparr>fetch_outcome = NetworkError, random_draw = 3 / 10, trim = (\<lambda>v. v)\<rparr>
      \<lparr>form_status = Some [],
       form_fields = [\<lparr>field_name = ''name'', field_value = ''Ada'', field_defaultValue = [],
                        field_required = True, field_typeMismatch = (\<lambda>v. False),
                        field_otherInvalid = (\<lambda>v. False), field_error = Some ''old''\<rparr>,
                      \<lparr>field_name = ''email'', field_value = ''ada@example.org'',
                        field_defaultValue = [],
                        field_required = True, field_typeMismatch = (\<lambda>v. False),
                        field_otherInvalid = (\<lambda>v. False), field_error = Some []\<rparr>,
                      \<lparr>field_name = ''message'', field_value = ''Hello'', field_defaultValue = [],
                        field_required = False, field_typeMismatch = (\<lambda>v. False),
                        field_otherInvalid = (\<lambda>v. False), field_error = None\<rparr>]\<rparr>))) = [''Ada'', ''ada@example.org'', ''Hello'']"
  using C3_fallback_after_failed_fetch [of "\<lparr>fetch_outcome = Aborted, random_draw = 1 / 2, trim = (\<lambda>v. v)\<rparr>"
      "\<lparr>form_status = Some [],
       form_fields = [\<lparr>field_name = ''name'', field_value = ''Ada'', field_defaultValue = [],
                        field_required = True, field_typeMismatch = (\<lambda>v. False),
                        field_otherInvalid = (\<lambda>v. False), field_error = Some ''old''\<rparr>,
                      \<lparr>field_name = ''email'', field_value = ''ada@example.org'',
                        field_defaultValue = [],
                        field_required = True, field_typeMismatch = (\<lambda>v. False),
                        field_otherInvalid = (\<lambda>v. False), field_error = Some []\<rparr>,
                      \<lparr>field_name = ''message'', field_value = ''Hello'', field_defaultValue = [],
                        field_required = False, field_typeMismatch = (\<lambda>v. False),
                        field_otherInvalid = (\<lambda>v. False), field_error = None\<rparr>]\<rparr>" "''Ada''" "''ada@example.org''" "''Hello''" "[]"]
    C3_fallback_after_failed_fetch [of "\<lparr>fetch_outcome = NetworkError, random_draw = 3 / 10, trim = (\<lambda>v. v)\<rparr>"
      "\<lparr>form_status = Some [],
       form_fields = [\<lparr>field_name = ''name'', field_value = ''Ada'', field_defaultValue = [],
                        field_required = True, field_typeMismatch = (\<lambda>v. False),
                        field_otherInvalid = (\<lambda>v. False), field_error = Some ''old''\<rparr>,
                      \<lparr>field_name = ''email'', field_value = ''ada@example.org'',
                        field_defaultValue = [],
                        field_required = True, field_typeMismatch = (\<lambda>v. False),
                        field_otherInvalid = (\<lambda>v. False), field_error = Some []\<rparr>,
                      \<lparr>field_name = ''message'', field_value = ''Hello'', field_defaultValue = [],
                        field_required = False, field_typeMismatch = (\<lambda>v. False),
                        field_otherInvalid = (\<lambda>v. False), field_error = None\<rparr>]\<rparr>" "''Ada''" "''ada@example.org''" "''Hello''" "[]"]
  by (simp add: valid_def valueMissing_def typeMismatch_def named_value_def)

end
